theory Spec2Isabelle
  imports Main
begin

section \<open>Values of the stock monitor (server.js)\<close>

text \<open>
  The server keeps all of its state in memory: a \<open>Map\<close> of monitored products, a
  \<open>Map\<close> of history entries, the handle of the polling timer, the flag that
  suppresses repeated "token expired" alerts and the \<open>CONFIG\<close> object. The
  embedding below follows \<^verbatim>\<open>src/server.js\<close> function by function.

  Conventions of the embedding.
  \<^item> Identifiers (product ids, size ids, registry keys) are strings. A request that
    sends the product id as a JSON number is outside the model.
  \<^item> A JavaScript \<open>Set\<close> is a duplicate-free list in insertion order; a \<open>Map\<close>
    is an association list in insertion order.
  \<^item> A plain object used as a dictionary (\<open>sizeMapping\<close>, \<open>stockInfo\<close>) is a
    \<open>js_object\<close>: its own properties in the order \<open>Object.keys\<close> and
    \<open>Object.entries\<close> enumerate them, and the value stored through the key
    \<open>__proto__\<close>, which JavaScript does not keep as an own property.
  \<^item> What the server gets from outside are oracles of an environment \<open>env\<close>:
    the answer to the product request, the outcome of each cart call, and what the
    \<open>URL\<close> constructor makes of a string (whether it throws, and the \<open>id\<close>
    parameter of the query).
  \<^item> Every outbound call the claims speak about is recorded in a log of
    \<open>effect\<close>s, in the order the calls are issued.
  \<^item> Each handler and each sweep runs to its end before the next one starts; the
    interleaving of a request with a sweep that is waiting on the network is not
    modelled.
\<close>

subsection \<open>Sets and maps of JavaScript\<close>

definition set_has :: "string list \<Rightarrow> string \<Rightarrow> bool" where
  "set_has s x = (x \<in> set s)"

definition set_add :: "string \<Rightarrow> string list \<Rightarrow> string list" where
  "set_add x s = (if x \<in> set s then s else s @ [x])"

definition set_delete :: "string \<Rightarrow> string list \<Rightarrow> string list" where
  "set_delete x s = filter (\<lambda>y. y \<noteq> x) s"

text \<open>\<open>new Set(array)\<close>: the elements in order of first occurrence.\<close>

definition new_Set :: "string list \<Rightarrow> string list" where
  "new_Set xs = fold set_add xs []"

fun map_set :: "string \<Rightarrow> 'v \<Rightarrow> (string \<times> 'v) list \<Rightarrow> (string \<times> 'v) list" where
  "map_set k v [] = [(k, v)]"
| "map_set k v ((k', v') # rest) =
     (if k' = k then (k, v) # rest else (k', v') # map_set k v rest)"

definition map_has :: "(string \<times> 'v) list \<Rightarrow> string \<Rightarrow> bool" where
  "map_has m k = (k \<in> fst ` set m)"

definition map_get :: "(string \<times> 'v) list \<Rightarrow> string \<Rightarrow> 'v option" where
  "map_get m k = map_of m k"

definition map_delete :: "string \<Rightarrow> (string \<times> 'v) list \<Rightarrow> (string \<times> 'v) list" where
  "map_delete k m = filter (\<lambda>kv. fst kv \<noteq> k) m"

subsection \<open>Plain objects as dictionaries\<close>

text \<open>
  Own string keys of an ordinary object are enumerated with the array indices first
  (canonical decimal numerals below \<open>2^32 - 1\<close>), in ascending numeric order, and then
  the other keys in the order they were created. Assigning to \<open>__proto__\<close> an object
  value replaces the prototype and creates no own property; reading \<open>__proto__\<close>
  gives that object back.
\<close>

record 'v js_object =
  props :: "(string \<times> 'v) list"
  proto :: "'v option"

definition obj_empty :: "'v js_object" where
  "obj_empty = \<lparr>props = [], proto = None\<rparr>"

definition digit_of :: "char \<Rightarrow> int option" where
  "digit_of c = map_of (zip ''0123456789'' [0, 1, 2, 3, 4, 5, 6, 7, 8, 9]) c"

fun decimal :: "string \<Rightarrow> int \<Rightarrow> int option" where
  "decimal [] acc = Some acc"
| "decimal (c # cs) acc =
     (case digit_of c of None \<Rightarrow> None | Some d \<Rightarrow> decimal cs (10 * acc + d))"

definition array_index :: "string \<Rightarrow> int option" where
  "array_index s =
     (case s of
        [] \<Rightarrow> None
      | c # cs \<Rightarrow>
          if c = CHR ''0'' \<and> cs \<noteq> [] then None
          else (case decimal s 0 of
                  None \<Rightarrow> None
                | Some n \<Rightarrow> if n < 4294967295 then Some n else None))"

fun insert_index :: "int \<Rightarrow> string \<Rightarrow> 'v \<Rightarrow> (string \<times> 'v) list \<Rightarrow> (string \<times> 'v) list" where
  "insert_index n k v [] = [(k, v)]"
| "insert_index n k v ((k', v') # rest) =
     (case array_index k' of
        Some m \<Rightarrow> if m < n then (k', v') # insert_index n k v rest
                  else (k, v) # (k', v') # rest
      | None \<Rightarrow> (k, v) # (k', v') # rest)"

definition obj_put :: "string \<Rightarrow> 'v \<Rightarrow> 'v js_object \<Rightarrow> 'v js_object" where
  "obj_put k v obj =
     (if k = ''__proto__'' then obj\<lparr>proto := Some v\<rparr>
      else if map_has (props obj) k then obj\<lparr>props := map_set k v (props obj)\<rparr>
      else (case array_index k of
              Some n \<Rightarrow> obj\<lparr>props := insert_index n k v (props obj)\<rparr>
            | None \<Rightarrow> obj\<lparr>props := props obj @ [(k, v)]\<rparr>))"

text \<open>
  \<open>obj[k]\<close> as the monitor uses it: the stored record, or nothing. An inherited
  property of \<open>Object.prototype\<close> (or of a replaced prototype) is a value without
  the fields \<open>inStock\<close> and \<open>size\<close>, which the callers treat like a missing one.
\<close>

definition obj_get :: "'v js_object \<Rightarrow> string \<Rightarrow> 'v option" where
  "obj_get obj k = (if k = ''__proto__'' then proto obj else map_of (props obj) k)"

definition Object_entries :: "'v js_object \<Rightarrow> (string \<times> 'v) list" where
  "Object_entries obj = props obj"

definition Object_keys :: "'v js_object \<Rightarrow> string list" where
  "Object_keys obj = map fst (props obj)"

subsection \<open>Product data\<close>

record product_info =
  title :: string
  brand :: string
  price :: "string option"
  originalPrice :: "string option"
  discount :: "string option"
  imageUrl :: "string option"

record size_info =
  si_size :: string
  si_productId :: string

record stock =
  inStock :: bool
  quantity :: nat

text \<open>
  One element of \<open>sizeOption.values\<close> of the upstream payload; \<open>sv_id\<close> is
  \<open>sizeValue.id.toString()\<close>.
\<close>

record size_value =
  sv_id :: string
  sv_value :: string
  sv_product_id :: string

text \<open>
  What the upstream answers for a product: the product information as
  \<open>fetchProductDetails\<close> extracts it, and \<open>data.options\<close> as a list of option
  groups (code and values; a missing list is the empty one).
\<close>

record upstream =
  up_info :: product_info
  up_options :: "(string \<times> size_value list) list"

record entry =
  productId :: string
  productInfo :: product_info
  sizeMapping :: "size_info js_object"
  watchedSizes :: "string list"
  watchAll :: bool
  hadSizes :: bool
  previousStock :: "stock js_object"
  notified :: "string list"

record history_entry =
  h_productId :: string
  h_title :: string
  h_brand :: string
  h_price :: "string option"
  h_originalPrice :: "string option"
  h_discount :: "string option"
  h_imageUrl :: "string option"
  h_sizeMapping :: "size_info js_object"
  addedAt :: nat
  lastMonitored :: nat

record state =
  monitoredProducts :: "(string \<times> entry) list"
  productHistory :: "(string \<times> history_entry) list"
  monitoringInterval :: bool
  tokenExpiredNotified :: bool
  discordWebhook :: string
  basicAuth :: string
  cookies :: string

datatype effect =
    CartAdd string string bool
  | DiscordNotification product_info string string nat string
  | TokenExpiredNotification string

text \<open>
  The environment of one handler or one sweep. \<open>fetchProduct\<close> answers the product
  request (\<open>Inl\<close> carries the message of the error that \<open>fetchProductDetails\<close>
  throws). \<open>cartSucceeds n\<close> tells whether the \<open>n\<close>-th cart call of this run
  (counted from 0) succeeds. \<open>urlError w\<close> is the message of the error that
  \<open>new URL(w)\<close> throws, if it throws; \<open>searchParamsId u\<close> is the query
  parameter \<open>id\<close> of a URL that parses.
\<close>

record env =
  fetchProduct :: "string \<Rightarrow> string + upstream"
  cartSucceeds :: "nat \<Rightarrow> bool"
  urlError :: "string \<Rightarrow> string option"
  searchParamsId :: "string \<Rightarrow> string option"

subsection \<open>Strings\<close>

text \<open>
  \<open>toLowerCase\<close> on the letters of ASCII, \<open>startsWith\<close> and \<open>includes\<close>.
\<close>

definition lower_char :: "char \<Rightarrow> char" where
  "lower_char c =
     (case map_of (zip ''ABCDEFGHIJKLMNOPQRSTUVWXYZ'' ''abcdefghijklmnopqrstuvwxyz'') c of
        None \<Rightarrow> c
      | Some l \<Rightarrow> l)"

definition toLowerCase :: "string \<Rightarrow> string" where
  "toLowerCase s = map lower_char s"

fun startsWith :: "string \<Rightarrow> string \<Rightarrow> bool" where
  "startsWith s [] = True"
| "startsWith [] (p # ps) = False"
| "startsWith (c # cs) (p # ps) = (c = p \<and> startsWith cs ps)"

fun str_includes :: "string \<Rightarrow> string \<Rightarrow> bool" where
  "str_includes [] needle = (needle = [])"
| "str_includes (c # cs) needle = (startsWith (c # cs) needle \<or> str_includes cs needle)"

section \<open>Upstream calls and notifications\<close>

definition productUrl :: "string \<Rightarrow> string" where
  "productUrl pid = ''https://www.privatesportshop.fr/catalog/product/view/id/'' @ pid"

fun is_cart :: "effect \<Rightarrow> bool" where
  "is_cart (CartAdd p s ok) = True"
| "is_cart _ = False"

fun is_discord :: "effect \<Rightarrow> bool" where
  "is_discord (DiscordNotification i s n q u) = True"
| "is_discord _ = False"


definition cart_calls :: "effect list \<Rightarrow> nat" where
  "cart_calls log = length (filter is_cart log)"

text \<open>
  \<open>parseSizes\<close> is the size loop of \<open>fetchProductDetails\<close> (lines 196-216): the
  first option group with code \<open>size\<close> fills \<open>sizeMapping\<close> and \<open>stockInfo\<close>,
  every listed size being taken as in stock with quantity 1.
\<close>

definition addSize ::
  "size_value \<Rightarrow> size_info js_object \<times> stock js_object \<Rightarrow> size_info js_object \<times> stock js_object" where
  "addSize sv acc =
     (obj_put (sv_id sv) \<lparr>si_size = sv_value sv, si_productId = sv_product_id sv\<rparr> (fst acc),
      obj_put (sv_id sv) \<lparr>inStock = True, quantity = 1\<rparr> (snd acc))"

definition parseSizes ::
  "(string \<times> size_value list) list \<Rightarrow> size_info js_object \<times> stock js_object" where
  "parseSizes options =
     (case find (\<lambda>opt. fst opt = ''size'') options of
        None \<Rightarrow> (obj_empty, obj_empty)
      | Some sizeOption \<Rightarrow> fold addSize (snd sizeOption) (obj_empty, obj_empty))"

definition fetchProductDetails ::
  "env \<Rightarrow> string \<Rightarrow> string + (product_info \<times> size_info js_object \<times> stock js_object)" where
  "fetchProductDetails e pid =
     (case fetchProduct e pid of
        Inl msg \<Rightarrow> Inl msg
      | Inr data \<Rightarrow> Inr (up_info data, parseSizes (up_options data)))"

text \<open>
  \<open>addToCart\<close> catches every error of the request and answers with a success flag
  (lines 226-251); the call is logged with its outcome.
\<close>

definition addToCart :: "env \<Rightarrow> string \<Rightarrow> string \<Rightarrow> effect list \<Rightarrow> bool \<times> effect list" where
  "addToCart e pid sizeId log =
     (let ok = cartSucceeds e (cart_calls log) in (ok, log @ [CartAdd pid sizeId ok]))"

text \<open>
  \<open>sendDiscordNotification\<close> (lines 253-309) returns at once without a webhook.
  Otherwise it builds the request inside a promise whose executor starts with
  \<open>new URL(CONFIG.discordWebhook)\<close>: when that throws, the promise is rejected and
  the \<open>await\<close> of the caller throws (\<open>Inl\<close>). A request that was issued counts as
  sent; delivery errors are swallowed by the source.
\<close>

definition sendDiscordNotification ::
  "env \<Rightarrow> string \<Rightarrow> product_info \<Rightarrow> string \<Rightarrow> string \<Rightarrow> nat \<Rightarrow> string \<Rightarrow> effect list
     \<Rightarrow> string + effect list" where
  "sendDiscordNotification e webhook pinfo sizeId sizeName qty url log =
     (if webhook = [] then Inr log
      else (case urlError e webhook of
              Some msg \<Rightarrow> Inl msg
            | None \<Rightarrow> Inr (log @ [DiscordNotification pinfo sizeId sizeName qty url])))"

text \<open>
  \<open>sendTokenExpiredNotification\<close> (lines 311-350): nothing happens when the flag is
  set or no webhook is configured; otherwise the flag is set first, and then the
  request is built as above. The result is the error thrown (if any), the flag and
  the log.
\<close>

definition sendTokenExpiredNotification ::
  "env \<Rightarrow> string \<Rightarrow> string \<Rightarrow> bool \<Rightarrow> effect list \<Rightarrow> string option \<times> bool \<times> effect list" where
  "sendTokenExpiredNotification e webhook errorMessage flag log =
     (if flag \<or> webhook = [] then (None, flag, log)
      else (case urlError e webhook of
              Some msg \<Rightarrow> (Some msg, True, log)
            | None \<Rightarrow> (None, True, log @ [TokenExpiredNotification (take 200 errorMessage)])))"

definition resetTokenExpiredFlag :: "state \<Rightarrow> state" where
  "resetTokenExpiredFlag st = st\<lparr>tokenExpiredNotified := False\<rparr>"

section \<open>Monitoring\<close>

text \<open>\<open>stockInfo[sizeId]?.inStock\<close>, read as a condition.\<close>

definition in_stock :: "stock js_object \<Rightarrow> string \<Rightarrow> bool" where
  "in_stock stockInfo sizeId =
     (case obj_get stockInfo sizeId of None \<Rightarrow> False | Some s \<Rightarrow> inStock s)"

text \<open>\<open>sizeMapping[sizeId]?.size || sizeId\<close>.\<close>

definition sizeNameOf :: "size_info js_object \<Rightarrow> string \<Rightarrow> string" where
  "sizeNameOf mapping sizeId =
     (case obj_get mapping sizeId of
        None \<Rightarrow> sizeId
      | Some i \<Rightarrow> if si_size i = [] then sizeId else si_size i)"

text \<open>\<open>currentStock.quantity || 1\<close>.\<close>

definition quantityOf :: "stock js_object \<Rightarrow> string \<Rightarrow> nat" where
  "quantityOf stockInfo sizeId =
     (case obj_get stockInfo sizeId of
        None \<Rightarrow> 1
      | Some s \<Rightarrow> if quantity s = 0 then 1 else quantity s)"

text \<open>
  The loop of the restock branch (lines 379-390), with its flag \<open>addedToCart\<close>.
  The result is the error thrown by the notification (if any), the set
  \<open>product.notified\<close> and the log.
\<close>

fun restockLoop ::
  "env \<Rightarrow> string \<Rightarrow> string \<Rightarrow> product_info \<Rightarrow> (string \<times> size_info) list \<Rightarrow> bool
     \<Rightarrow> string list \<Rightarrow> effect list \<Rightarrow> string option \<times> string list \<times> effect list" where
  "restockLoop e webhook pid pinfo [] addedToCart ntf log = (None, ntf, log)"
| "restockLoop e webhook pid pinfo ((sizeId, sizeInfo) # rest) addedToCart ntf log =
     (if \<not> addedToCart then
        (case addToCart e pid sizeId log of
           (ok, log1) \<Rightarrow>
             if ok then
               (case sendDiscordNotification e webhook pinfo sizeId (si_size sizeInfo) 1
                       (productUrl pid) log1 of
                  Inl msg \<Rightarrow> (Some msg, ntf, log1)
                | Inr log2 \<Rightarrow>
                    restockLoop e webhook pid pinfo rest True (set_add sizeId ntf) log2)
             else restockLoop e webhook pid pinfo rest False ntf log1)
      else restockLoop e webhook pid pinfo rest addedToCart ntf log)"

text \<open>
  The \<open>watchAll\<close> branch (lines 371-402). \<open>hadSizes\<close> is set after the restock
  loop, so a notification that throws leaves it unchanged.
\<close>

definition watchAllBranch ::
  "env \<Rightarrow> string \<Rightarrow> entry \<Rightarrow> product_info \<Rightarrow> size_info js_object \<Rightarrow> effect list
     \<Rightarrow> string option \<times> entry \<times> effect list" where
  "watchAllBranch e webhook product pinfo mapping log =
     (let hasSizes = (Object_keys mapping \<noteq> []) in
      if watchAll product then
        (let hadSizesBefore = hadSizes product in
         case (if \<not> hadSizesBefore \<and> hasSizes then
                 (case restockLoop e webhook (productId product) pinfo (Object_entries mapping)
                         False (notified product) log of
                    (Some msg, ntf, log1) \<Rightarrow> (Some msg, product\<lparr>notified := ntf\<rparr>, log1)
                  | (None, ntf, log1) \<Rightarrow>
                      (None, product\<lparr>notified := ntf, hadSizes := True\<rparr>, log1))
               else (None, product, log)) of
           (Some msg, p1, log1) \<Rightarrow> (Some msg, p1, log1)
         | (None, p1, log1) \<Rightarrow>
             (None,
              if hadSizesBefore \<and> \<not> hasSizes then p1\<lparr>hadSizes := False, notified := []\<rparr>
              else p1,
              log1))
      else (None, product, log))"

text \<open>One round of the loop over the watched sizes (lines 405-437).\<close>

definition watchStep ::
  "env \<Rightarrow> string \<Rightarrow> string \<Rightarrow> product_info \<Rightarrow> size_info js_object \<Rightarrow> stock js_object
     \<Rightarrow> stock js_object \<Rightarrow> string \<Rightarrow> string list \<Rightarrow> effect list
     \<Rightarrow> string option \<times> string list \<times> effect list" where
  "watchStep e webhook pid pinfo mapping stockInfo previous sizeId ntf log =
     (let sizeName = sizeNameOf mapping sizeId;
          wasInStock = in_stock previous sizeId;
          nowInStock = in_stock stockInfo sizeId
      in case (if nowInStock \<and> \<not> wasInStock \<and> \<not> set_has ntf sizeId then
                 (case addToCart e pid sizeId log of
                    (ok, log1) \<Rightarrow>
                      if ok then
                        (case sendDiscordNotification e webhook pinfo sizeId sizeName
                                (quantityOf stockInfo sizeId) (productUrl pid) log1 of
                           Inl msg \<Rightarrow> (Some msg, ntf, log1)
                         | Inr log2 \<Rightarrow> (None, set_add sizeId ntf, log2))
                      else (None, ntf, log1))
               else (None, ntf, log)) of
           (Some msg, ntf1, log1) \<Rightarrow> (Some msg, ntf1, log1)
         | (None, ntf1, log1) \<Rightarrow>
             (None,
              if set_has ntf1 sizeId \<and> \<not> nowInStock then set_delete sizeId ntf1 else ntf1,
              log1))"

fun watchLoop ::
  "env \<Rightarrow> string \<Rightarrow> string \<Rightarrow> product_info \<Rightarrow> size_info js_object \<Rightarrow> stock js_object
     \<Rightarrow> stock js_object \<Rightarrow> string list \<Rightarrow> string list \<Rightarrow> effect list
     \<Rightarrow> string option \<times> string list \<times> effect list" where
  "watchLoop e webhook pid pinfo mapping stockInfo previous [] ntf log = (None, ntf, log)"
| "watchLoop e webhook pid pinfo mapping stockInfo previous (sizeId # rest) ntf log =
     (case watchStep e webhook pid pinfo mapping stockInfo previous sizeId ntf log of
        (Some msg, ntf1, log1) \<Rightarrow> (Some msg, ntf1, log1)
      | (None, ntf1, log1) \<Rightarrow>
          watchLoop e webhook pid pinfo mapping stockInfo previous rest ntf1 log1)"

text \<open>
  The body of the \<open>try\<close> block after the fetch (lines 367-441) for one product: the
  \<open>watchAll\<close> branch, the loop over the watched sizes, and the three assignments
  that store the snapshot. When a notification throws, the assignments are not
  reached and the product keeps what was changed before.
\<close>

definition monitorProduct ::
  "env \<Rightarrow> string \<Rightarrow> entry \<Rightarrow> product_info \<times> size_info js_object \<times> stock js_object
     \<Rightarrow> effect list \<Rightarrow> string option \<times> entry \<times> effect list" where
  "monitorProduct e webhook product fetched log =
     (case fetched of
        (pinfo, mapping, stockInfo) \<Rightarrow>
          (case watchAllBranch e webhook product pinfo mapping log of
             (Some msg, p1, log1) \<Rightarrow> (Some msg, p1, log1)
           | (None, p1, log1) \<Rightarrow>
               (case watchLoop e webhook (productId p1) pinfo mapping stockInfo
                       (previousStock p1) (watchedSizes p1) (notified p1) log1 of
                  (Some msg, ntf, log2) \<Rightarrow> (Some msg, p1\<lparr>notified := ntf\<rparr>, log2)
                | (None, ntf, log2) \<Rightarrow>
                    (None,
                     p1\<lparr>notified := ntf, previousStock := stockInfo, productInfo := pinfo,
                        sizeMapping := mapping\<rparr>,
                     log2))))"

text \<open>The test of the \<open>catch\<close> block of the sweep (lines 446-452).\<close>

definition authSignal :: "string \<Rightarrow> bool" where
  "authSignal message =
     (let errorMsg = toLowerCase message in
      str_includes errorMsg ''unauthorized'' \<or> str_includes errorMsg ''401'' \<or>
      str_includes errorMsg ''403'' \<or> str_includes errorMsg ''token'' \<or>
      str_includes errorMsg ''auth'' \<or> str_includes errorMsg ''expired'')"

text \<open>
  One product of the sweep: the \<open>try\<close> block, giving the error caught (if any), the
  product and the log.
\<close>

definition tryProduct ::
  "env \<Rightarrow> string \<Rightarrow> entry \<Rightarrow> effect list \<Rightarrow> string option \<times> entry \<times> effect list" where
  "tryProduct e webhook product log =
     (case fetchProductDetails e (productId product) of
        Inl msg \<Rightarrow> (Some msg, product, log)
      | Inr fetched \<Rightarrow> monitorProduct e webhook product fetched log)"

text \<open>
  The loop of \<open>monitorAllProducts\<close> over the registry. An error of a product is
  caught and the loop goes on; an error thrown inside the \<open>catch\<close> block (by the
  token alert) is not caught, and the sweep ends there with the remaining products
  untouched. The first component of the result is that error.
\<close>

fun monitorLoop ::
  "env \<Rightarrow> string \<Rightarrow> (string \<times> entry) list \<Rightarrow> bool \<Rightarrow> effect list
     \<Rightarrow> string option \<times> (string \<times> entry) list \<times> bool \<times> effect list" where
  "monitorLoop e webhook [] flag log = (None, [], flag, log)"
| "monitorLoop e webhook ((key, product) # rest) flag log =
     (case tryProduct e webhook product log of
        (None, p1, log1) \<Rightarrow>
          (case monitorLoop e webhook rest flag log1 of
             (r, ps, flag2, log2) \<Rightarrow> (r, (key, p1) # ps, flag2, log2))
      | (Some msg, p1, log1) \<Rightarrow>
          if authSignal msg then
            (case sendTokenExpiredNotification e webhook msg flag log1 of
               (Some msg2, flag1, log2) \<Rightarrow> (Some msg2, (key, p1) # rest, flag1, log2)
             | (None, flag1, log2) \<Rightarrow>
                 (case monitorLoop e webhook rest flag1 log2 of
                    (r, ps, flag2, log3) \<Rightarrow> (r, (key, p1) # ps, flag2, log3)))
          else
            (case monitorLoop e webhook rest flag log1 of
               (r, ps, flag2, log2) \<Rightarrow> (r, (key, p1) # ps, flag2, log2)))"

definition monitorAllProducts :: "env \<Rightarrow> state \<Rightarrow> string option \<times> state \<times> effect list" where
  "monitorAllProducts e st =
     (if monitoredProducts st = [] then (None, st, [])
      else (case monitorLoop e (discordWebhook st) (monitoredProducts st)
                   (tokenExpiredNotified st) [] of
              (r, ps, flag, log) \<Rightarrow>
                (r, st\<lparr>monitoredProducts := ps, tokenExpiredNotified := flag\<rparr>, log)))"

definition startMonitoring :: "state \<Rightarrow> state" where
  "startMonitoring st = (if \<not> monitoringInterval st then st\<lparr>monitoringInterval := True\<rparr> else st)"

definition stopMonitoring :: "state \<Rightarrow> state" where
  "stopMonitoring st = (if monitoringInterval st then st\<lparr>monitoringInterval := False\<rparr> else st)"

section \<open>Request handlers\<close>

text \<open>
  The field \<open>watchedSizes\<close> of a request body: missing, \<open>null\<close>, or an array of
  size ids. Other JSON values are outside the model.
\<close>

datatype sizes_field = SizesMissing | SizesNull | SizesArray "string list"

record add_body =
  ab_productId :: string
  ab_watchedSizes :: sizes_field
  ab_watchAll :: bool

record add_reply =
  ar_message :: string
  ar_mode :: string
  ar_inStock :: bool
  ar_watchedSizes :: "string list"
  ar_availableSizes :: "(string \<times> string) list"
  ar_alreadyInStock :: "string list"

record preview_body =
  pb_productId :: string
  pb_url :: string

record preview_reply =
  pr_productId :: string
  pr_productInfo :: product_info
  pr_hasSizes :: bool
  pr_sizes :: "(string \<times> size_info \<times> stock) list"

record auth_body =
  au_headers :: string
  au_basicAuth :: string
  au_cookies :: string

datatype response =
    Failure nat string
  | Added add_reply
  | Preview preview_reply
  | Done string
  | SizesUpdated "string list"

subsection \<open>History\<close>

text \<open>
  \<open>addToHistory\<close> (lines 66-79) stores a fresh entry under the product id; the two
  time stamps are the two readings of the clock.
\<close>

definition addToHistory ::
  "string \<Rightarrow> product_info \<Rightarrow> size_info js_object \<Rightarrow> nat \<Rightarrow> nat \<Rightarrow> state \<Rightarrow> state" where
  "addToHistory pid pinfo mapping now1 now2 st =
     st\<lparr>productHistory :=
          map_set pid
            \<lparr>h_productId = pid,
             h_title = (if title pinfo = [] then ''Produit '' @ pid else title pinfo),
             h_brand = brand pinfo, h_price = price pinfo,
             h_originalPrice = originalPrice pinfo, h_discount = discount pinfo,
             h_imageUrl = imageUrl pinfo, h_sizeMapping = mapping,
             addedAt = now1, lastMonitored = now2\<rparr>
            (productHistory st)\<rparr>"

definition delete_history :: "state \<Rightarrow> state \<times> response" where
  "delete_history st = (st\<lparr>productHistory := []\<rparr>, Done ''History cleared'')"

definition delete_history_key :: "string \<Rightarrow> state \<Rightarrow> state \<times> response" where
  "delete_history_key key st =
     (if map_has (productHistory st) key then
        (st\<lparr>productHistory := map_delete key (productHistory st)\<rparr>,
         Done ''Item removed from history'')
      else (st, Failure 404 ''Item not found in history''))"

subsection \<open>Adding a product\<close>

text \<open>
  The test of the \<open>catch\<close> blocks of the two fetching handlers (lines 560-567 and
  662-669); unlike the sweep's it does not look for \<open>expired\<close>.
\<close>

definition authSignalRequest :: "string \<Rightarrow> bool" where
  "authSignalRequest message =
     (let errorMsg = toLowerCase message in
      str_includes errorMsg ''unauthorized'' \<or> str_includes errorMsg ''401'' \<or>
      str_includes errorMsg ''403'' \<or> str_includes errorMsg ''token'' \<or>
      str_includes errorMsg ''auth'')"

text \<open>
  The \<open>catch\<close> block of a handler: the token alert is started and not awaited, so an
  error of its own is not seen by the handler; the answer is status 500 with the
  message.
\<close>

definition requestFailed ::
  "env \<Rightarrow> string \<Rightarrow> state \<Rightarrow> effect list \<Rightarrow> state \<times> response \<times> effect list" where
  "requestFailed e msg st log =
     (if authSignalRequest msg then
        (case sendTokenExpiredNotification e (discordWebhook st) msg
                (tokenExpiredNotified st) log of
           (r, flag, log1) \<Rightarrow> (st\<lparr>tokenExpiredNotified := flag\<rparr>, Failure 500 msg, log1))
      else (st, Failure 500 msg, log))"

text \<open>
  The two loops of the handler (lines 600-607 and 612-626). The first stops at the
  first size that the cart accepts.
\<close>

fun addRestockLoop ::
  "env \<Rightarrow> string \<Rightarrow> string \<Rightarrow> product_info \<Rightarrow> (string \<times> size_info) list
     \<Rightarrow> string list \<Rightarrow> effect list \<Rightarrow> string option \<times> string list \<times> effect list" where
  "addRestockLoop e webhook pid pinfo [] ntf log = (None, ntf, log)"
| "addRestockLoop e webhook pid pinfo ((sizeId, sizeInfo) # rest) ntf log =
     (case addToCart e pid sizeId log of
        (ok, log1) \<Rightarrow>
          if ok then
            (case sendDiscordNotification e webhook pinfo sizeId (si_size sizeInfo) 1
                    (productUrl pid) log1 of
               Inl msg \<Rightarrow> (Some msg, ntf, log1)
             | Inr log2 \<Rightarrow> (None, set_add sizeId ntf, log2))
          else addRestockLoop e webhook pid pinfo rest ntf log1)"

fun addWatchLoop ::
  "env \<Rightarrow> string \<Rightarrow> string \<Rightarrow> product_info \<Rightarrow> size_info js_object \<Rightarrow> stock js_object
     \<Rightarrow> string list \<Rightarrow> string list \<Rightarrow> effect list
     \<Rightarrow> string option \<times> string list \<times> effect list" where
  "addWatchLoop e webhook pid pinfo mapping stockInfo [] ntf log = (None, ntf, log)"
| "addWatchLoop e webhook pid pinfo mapping stockInfo (sizeId # rest) ntf log =
     (if in_stock stockInfo sizeId then
        (case addToCart e pid sizeId log of
           (ok, log1) \<Rightarrow>
             if ok then
               (case sendDiscordNotification e webhook pinfo sizeId (sizeNameOf mapping sizeId)
                       (quantityOf stockInfo sizeId) (productUrl pid) log1 of
                  Inl msg \<Rightarrow> (Some msg, ntf, log1)
                | Inr log2 \<Rightarrow>
                    addWatchLoop e webhook pid pinfo mapping stockInfo rest
                      (set_add sizeId ntf) log2)
             else addWatchLoop e webhook pid pinfo mapping stockInfo rest ntf log1)
      else addWatchLoop e webhook pid pinfo mapping stockInfo rest ntf log)"

definition sizes_list :: "sizes_field \<Rightarrow> string list" where
  "sizes_list f = (case f of SizesArray xs \<Rightarrow> xs | _ \<Rightarrow> [])"

definition addReply ::
  "add_body \<Rightarrow> product_info \<Rightarrow> size_info js_object \<Rightarrow> string list \<Rightarrow> add_reply" where
  "addReply body pinfo mapping ntf =
     (let hasSizes = (Object_keys mapping \<noteq> []) in
      \<lparr>ar_message =
         (if ab_watchAll body then
            ''Monitoring '' @ brand pinfo @ '' - '' @ title pinfo @ '' for ANY stock (currently ''
              @ (if hasSizes then ''in stock'' else ''out of stock'') @ '')''
          else ''Now monitoring '' @ brand pinfo @ '' - '' @ title pinfo),
       ar_mode = (if ab_watchAll body then ''watchAll'' else ''watchSizes''),
       ar_inStock = hasSizes,
       ar_watchedSizes = map (sizeNameOf mapping) (sizes_list (ab_watchedSizes body)),
       ar_availableSizes = map (\<lambda>kv. (fst kv, si_size (snd kv))) (Object_entries mapping),
       ar_alreadyInStock = map (sizeNameOf mapping) ntf\<rparr>)"

text \<open>
  \<open>POST /api/products/add\<close> (lines 574-673). \<open>now1\<close> and \<open>now2\<close> are the readings
  of the clock in \<open>addToHistory\<close>.
\<close>

definition post_products_add ::
  "env \<Rightarrow> nat \<Rightarrow> nat \<Rightarrow> add_body \<Rightarrow> state \<Rightarrow> state \<times> response \<times> effect list" where
  "post_products_add e now1 now2 body st =
     (let pid = ab_productId body; watched = sizes_list (ab_watchedSizes body) in
      if pid = [] then (st, Failure 400 ''Product ID is required'', [])
      else if \<not> ab_watchAll body \<and> watched = [] then
        (st,
         Failure 400
           ''watchedSizes array is required (or set watchAll: true for out-of-stock products)'',
         [])
      else
        (case fetchProductDetails e pid of
           Inl msg \<Rightarrow> requestFailed e msg st []
         | Inr (pinfo, mapping, stockInfo) \<Rightarrow>
             (let hasSizes = (Object_keys mapping \<noteq> []) in
              case (if ab_watchAll body \<and> hasSizes then
                      addRestockLoop e (discordWebhook st) pid pinfo (Object_entries mapping)
                        [] []
                    else (None, [], [])) of
                (Some msg, ntf1, log1) \<Rightarrow> requestFailed e msg st log1
              | (None, ntf1, log1) \<Rightarrow>
                  (case addWatchLoop e (discordWebhook st) pid pinfo mapping stockInfo watched
                          ntf1 log1 of
                     (Some msg, ntf2, log2) \<Rightarrow> requestFailed e msg st log2
                   | (None, ntf2, log2) \<Rightarrow>
                       (startMonitoring
                          (addToHistory pid pinfo mapping now1 now2
                             (st\<lparr>monitoredProducts :=
                                   map_set pid
                                     \<lparr>productId = pid, productInfo = pinfo,
                                      sizeMapping = mapping,
                                      watchedSizes = new_Set watched,
                                      watchAll = ab_watchAll body, hadSizes = hasSizes,
                                      previousStock = stockInfo, notified = ntf2\<rparr>
                                     (monitoredProducts st)\<rparr>)),
                        Added (addReply body pinfo mapping ntf2),
                        log2)))))"

subsection \<open>Removing a product, replacing its sizes, resetting its notifications\<close>

definition delete_product :: "string \<Rightarrow> state \<Rightarrow> state \<times> response" where
  "delete_product key st =
     (if map_has (monitoredProducts st) key then
        (let st1 = st\<lparr>monitoredProducts := map_delete key (monitoredProducts st)\<rparr>
         in (if monitoredProducts st1 = [] then stopMonitoring st1 else st1,
             Done ''Product removed''))
      else (st, Failure 404 ''Product not found''))"

text \<open>
  \<open>new Set(watchedSizes)\<close> of the handler below: \<open>undefined\<close> and \<open>null\<close> give the
  empty set.
\<close>

definition set_of_field :: "sizes_field \<Rightarrow> string list" where
  "set_of_field f =
     (case f of SizesMissing \<Rightarrow> [] | SizesNull \<Rightarrow> [] | SizesArray xs \<Rightarrow> new_Set xs)"

text \<open>
  A product of the registry is an object that the handlers change in place:
  \<open>update_product\<close> applies the change to the value stored under the key.
\<close>

definition update_product ::
  "string \<Rightarrow> (entry \<Rightarrow> entry) \<Rightarrow> (string \<times> entry) list \<Rightarrow> (string \<times> entry) list" where
  "update_product key f m = map (\<lambda>kv. if fst kv = key then (fst kv, f (snd kv)) else kv) m"

definition put_product_sizes :: "string \<Rightarrow> sizes_field \<Rightarrow> state \<Rightarrow> state \<times> response" where
  "put_product_sizes key field st =
     (if \<not> map_has (monitoredProducts st) key then (st, Failure 404 ''Product not found'')
      else
        (st\<lparr>monitoredProducts :=
              update_product key (\<lambda>product. product\<lparr>watchedSizes := set_of_field field\<rparr>)
                (monitoredProducts st)\<rparr>,
         SizesUpdated (set_of_field field)))"

definition post_product_reset :: "string \<Rightarrow> state \<Rightarrow> state \<times> response" where
  "post_product_reset key st =
     (if \<not> map_has (monitoredProducts st) key then (st, Failure 404 ''Product not found'')
      else
        (st\<lparr>monitoredProducts :=
              update_product key (\<lambda>product. product\<lparr>notified := []\<rparr>) (monitoredProducts st)\<rparr>,
         Done ''Notifications reset''))"

subsection \<open>Previewing a product\<close>

definition is_digit :: "char \<Rightarrow> bool" where
  "is_digit c = (digit_of c \<noteq> None)"

text \<open>The first match of the regular expression \<open>/\/id\/(\d+)/\<close>: its group.\<close>

fun matchId :: "string \<Rightarrow> string option" where
  "matchId [] = None"
| "matchId (c # cs) =
     (if startsWith (c # cs) ''/id/'' \<and> takeWhile is_digit (drop 4 (c # cs)) \<noteq> []
      then Some (takeWhile is_digit (drop 4 (c # cs)))
      else matchId cs)"

text \<open>
  \<open>parseProductUrl\<close> (lines 510-522): \<open>Inl\<close> is the error of \<open>new URL(url)\<close>,
  \<open>Inr None\<close> is \<open>null\<close>.
\<close>

definition parseProductUrl :: "env \<Rightarrow> string \<Rightarrow> string + string option" where
  "parseProductUrl e url =
     (case matchId url of
        Some found \<Rightarrow> Inr (Some found)
      | None \<Rightarrow>
          (case urlError e url of
             Some msg \<Rightarrow> Inl msg
           | None \<Rightarrow>
               (case searchParamsId e url of
                  None \<Rightarrow> Inr None
                | Some v \<Rightarrow> if v = [] then Inr None else Inr (Some v))))"

definition previewReply ::
  "string \<Rightarrow> product_info \<Rightarrow> size_info js_object \<Rightarrow> stock js_object \<Rightarrow> preview_reply" where
  "previewReply pid pinfo mapping stockInfo =
     \<lparr>pr_productId = pid, pr_productInfo = pinfo,
      pr_hasSizes = (Object_keys mapping \<noteq> []),
      pr_sizes =
        map (\<lambda>kv. (fst kv, snd kv,
                    (case obj_get stockInfo (fst kv) of
                       None \<Rightarrow> \<lparr>inStock = False, quantity = 0\<rparr>
                     | Some s \<Rightarrow> s)))
          (Object_entries mapping)\<rparr>"

text \<open>\<open>POST /api/products/fetch\<close> (lines 525-571).\<close>

definition post_products_fetch ::
  "env \<Rightarrow> preview_body \<Rightarrow> state \<Rightarrow> state \<times> response \<times> effect list" where
  "post_products_fetch e body st =
     (case (if pb_url body \<noteq> [] \<and> pb_productId body = [] then parseProductUrl e (pb_url body)
            else Inr (Some (pb_productId body))) of
        Inl msg \<Rightarrow> requestFailed e msg st []
      | Inr None \<Rightarrow> (st, Failure 400 ''Invalid PrivateSportShop URL format'', [])
      | Inr (Some pid) \<Rightarrow>
          if pid = [] then (st, Failure 400 ''Product ID is required (or provide URL)'', [])
          else
            (case fetchProductDetails e pid of
               Inl msg \<Rightarrow> requestFailed e msg st []
             | Inr (pinfo, mapping, stockInfo) \<Rightarrow>
                 (st, Preview (previewReply pid pinfo mapping stockInfo), [])))"

subsection \<open>Configuration\<close>

definition is_space :: "char \<Rightarrow> bool" where
  "is_space c = (c \<in> set [CHR 0x09, CHR 0x0A, CHR 0x0B, CHR 0x0C, CHR 0x0D, CHR 0x20])"

definition trim :: "string \<Rightarrow> string" where
  "trim s = rev (dropWhile is_space (rev (dropWhile is_space s)))"

text \<open>\<open>split('\n')\<close>.\<close>

fun split_lines :: "string \<Rightarrow> string list" where
  "split_lines [] = [[]]"
| "split_lines (c # cs) =
     (if c = CHR 0x0A then [] # split_lines cs
      else (case split_lines cs of
              [] \<Rightarrow> [[c]]
            | l # ls \<Rightarrow> (c # l) # ls))"

text \<open>
  \<open>parseHeadersFromEnv\<close> (lines 11-34); the result is the pair of \<open>basicAuth\<close> and
  \<open>cookies\<close>. White space is that of ASCII.
\<close>

definition headerLine :: "string \<Rightarrow> string \<times> string \<Rightarrow> string \<times> string" where
  "headerLine line result =
     (let trimmed = trim line;
          r1 = (if startsWith (toLowerCase trimmed) ''authorization:'' then
                  (let v = trim (drop 14 trimmed) in
                   if startsWith (toLowerCase v) ''basic '' then (trim (drop 6 v), snd result)
                   else result)
                else result)
      in if startsWith (toLowerCase trimmed) ''cookie:'' then (fst r1, trim (drop 7 trimmed))
         else r1)"

definition parseHeadersFromEnv :: "string \<Rightarrow> string \<times> string" where
  "parseHeadersFromEnv headersStr =
     (if headersStr = [] then ([], []) else fold headerLine (split_lines headersStr) ([], []))"

text \<open>
  \<open>POST /api/config/auth\<close> (lines 761-790): the credentials that the body brings
  are stored, and the flag of the token alert is reset in every case.
\<close>

definition post_config_auth :: "auth_body \<Rightarrow> state \<Rightarrow> state \<times> response" where
  "post_config_auth body st =
     (let parsed = (if au_headers body \<noteq> [] then parseHeadersFromEnv (au_headers body)
                    else ([], []));
          st1 = (if fst parsed \<noteq> [] then st\<lparr>basicAuth := fst parsed\<rparr> else st);
          st2 = (if snd parsed \<noteq> [] then st1\<lparr>cookies := snd parsed\<rparr> else st1);
          st3 = (if au_basicAuth body \<noteq> [] then st2\<lparr>basicAuth := au_basicAuth body\<rparr> else st2);
          st4 = (if au_cookies body \<noteq> [] then st3\<lparr>cookies := au_cookies body\<rparr> else st3)
      in (resetTokenExpiredFlag st4, Done ''Auth updated''))"

definition post_config_discord :: "string \<Rightarrow> state \<Rightarrow> state \<times> response" where
  "post_config_discord webhook st =
     (if webhook = [] then (st, Failure 400 ''Webhook URL is required'')
      else (st\<lparr>discordWebhook := webhook\<rparr>, Done ''Discord webhook updated''))"

section \<open>Runs of the server\<close>

text \<open>
  A run is a sequence of events: a tick of the polling timer (which exists only while
  \<open>monitoringInterval\<close> is set) or one of the requests that change state or call
  out. Each event carries the environment it meets. The read-only requests
  (\<open>/health\<close>, \<open>/ping\<close>, the two listings) are left out.
\<close>

datatype event =
    Tick env
  | PostProductsFetch env preview_body
  | PostProductsAdd env nat nat add_body
  | DeleteProduct string
  | PutProductSizes string sizes_field
  | PostProductReset string
  | DeleteHistory
  | DeleteHistoryKey string
  | PostConfigAuth auth_body
  | PostConfigDiscord string

fun step :: "state \<Rightarrow> event \<Rightarrow> state \<times> effect list" where
  "step st (Tick e) =
     (if monitoringInterval st then
        (case monitorAllProducts e st of (r, st1, log) \<Rightarrow> (st1, log))
      else (st, []))"
| "step st (PostProductsFetch e body) =
     (case post_products_fetch e body st of (st1, resp, log) \<Rightarrow> (st1, log))"
| "step st (PostProductsAdd e now1 now2 body) =
     (case post_products_add e now1 now2 body st of (st1, resp, log) \<Rightarrow> (st1, log))"
| "step st (DeleteProduct key) = (fst (delete_product key st), [])"
| "step st (PutProductSizes key field) = (fst (put_product_sizes key field st), [])"
| "step st (PostProductReset key) = (fst (post_product_reset key st), [])"
| "step st DeleteHistory = (fst (delete_history st), [])"
| "step st (DeleteHistoryKey key) = (fst (delete_history_key key st), [])"
| "step st (PostConfigAuth body) = (fst (post_config_auth body st), [])"
| "step st (PostConfigDiscord webhook) = (fst (post_config_discord webhook st), [])"

fun run :: "state \<Rightarrow> event list \<Rightarrow> state \<times> effect list" where
  "run st [] = (st, [])"
| "run st (ev # evs) =
     (case step st ev of
        (st1, log1) \<Rightarrow> (case run st1 evs of (st2, log2) \<Rightarrow> (st2, log1 @ log2)))"

text \<open>
  The state at start-up (lines 40-63): nothing monitored, no history, no timer, the
  flag down, and the configuration read from the process environment.
\<close>

definition initial :: "string \<Rightarrow> string \<Rightarrow> string \<Rightarrow> state" where
  "initial webhook auth cookie =
     \<lparr>monitoredProducts = [], productHistory = [], monitoringInterval = False,
      tokenExpiredNotified = False, discordWebhook = webhook, basicAuth = auth,
      cookies = cookie\<rparr>"

section \<open>Reading the log\<close>

fun effect_size :: "effect \<Rightarrow> string option" where
  "effect_size (CartAdd p s ok) = Some s"
| "effect_size (DiscordNotification i s n q u) = Some s"
| "effect_size (TokenExpiredNotification m) = None"

fun cart_ok :: "effect \<Rightarrow> bool" where
  "cart_ok (CartAdd p s ok) = ok"
| "cart_ok _ = False"

section \<open>Sample data\<close>

text \<open>
  A product, upstream answers that list given size ids, and environments built from
  their oracles; they are the inputs of the worked examples below.
\<close>

definition shoe :: product_info where
  "shoe = \<lparr>title = ''Trail Shoe'', brand = ''Acme'', price = Some ''59.99'',
            originalPrice = Some ''120.00'', discount = Some ''50%'', imageUrl = None\<rparr>"

definition sizeValue :: "string \<Rightarrow> size_value" where
  "sizeValue i = \<lparr>sv_id = i, sv_value = ''EU '' @ i, sv_product_id = ''v'' @ i\<rparr>"

definition listing :: "string list \<Rightarrow> string + upstream" where
  "listing ids =
     Inr \<lparr>up_info = shoe, up_options = [(''color'', []), (''size'', map sizeValue ids)]\<rparr>"

definition world ::
  "(string \<Rightarrow> string + upstream) \<Rightarrow> (nat \<Rightarrow> bool) \<Rightarrow> (string \<Rightarrow> string option) \<Rightarrow> env" where
  "world f c u = \<lparr>fetchProduct = f, cartSucceeds = c, urlError = u, searchParamsId = (\<lambda>x. None)\<rparr>"

definition hook :: string where
  "hook = ''https://discord.test/api/webhooks/1''"

definition start :: state where
  "start = initial hook [] []"

definition lists :: "string list \<Rightarrow> bool \<Rightarrow> env" where
  "lists ids cart = world (\<lambda>p. listing ids) (\<lambda>n. cart) (\<lambda>u. None)"

definition snapshot :: "string list \<Rightarrow> size_info js_object \<times> stock js_object" where
  "snapshot ids = parseSizes [(''color'', []), (''size'', map sizeValue ids)]"

definition watch_size_1 :: add_body where
  "watch_size_1 = \<lparr>ab_productId = ''77'', ab_watchedSizes = SizesArray [''1''], ab_watchAll = False\<rparr>"

definition watch_any :: add_body where
  "watch_any = \<lparr>ab_productId = ''77'', ab_watchedSizes = SizesMissing, ab_watchAll = True\<rparr>"

text \<open>
  Product 77 as the registry holds it after \<open>watch_size_1\<close> was accepted while only
  size 2 was listed, and after a sweep that saw sizes 1 and 2 and could not reserve.
\<close>

definition watching_1 :: entry where
  "watching_1 =
     \<lparr>productId = ''77'', productInfo = shoe, sizeMapping = fst (snapshot [''2'']),
      watchedSizes = [''1''], watchAll = False, hadSizes = True,
      previousStock = snd (snapshot [''2'']), notified = []\<rparr>"

definition watching_1_seen :: entry where
  "watching_1_seen =
     watching_1\<lparr>sizeMapping := fst (snapshot [''1'', ''2'']),
                previousStock := snd (snapshot [''1'', ''2''])\<rparr>"

text \<open>
  The same product after a sweep that saw sizes 1 and 2 and reserved size 1.
\<close>

definition watching_1_notified :: entry where
  "watching_1_notified = watching_1_seen\<lparr>notified := [''1'']\<rparr>"

text \<open>
  Product 77 in \<open>watchAll\<close> mode, added while nothing was listed, before and after a
  sweep that sees sizes 20 and 10 listed in this order and whose second cart call is
  the first to succeed.
\<close>

definition second_call_succeeds :: env where
  "second_call_succeeds = world (\<lambda>p. listing [''20'', ''10'']) (\<lambda>n. n = 1) (\<lambda>u. None)"

definition waiting_any :: entry where
  "waiting_any =
     \<lparr>productId = ''77'', productInfo = shoe, sizeMapping = fst (snapshot []),
      watchedSizes = [], watchAll = True, hadSizes = False,
      previousStock = snd (snapshot []), notified = []\<rparr>"

definition waiting_any_restocked :: entry where
  "waiting_any_restocked =
     waiting_any\<lparr>sizeMapping := fst (snapshot [''20'', ''10'']), hadSizes := True,
                 previousStock := snd (snapshot [''20'', ''10'']), notified := [''20'']\<rparr>"

text \<open>
  Environments in which the configured webhook is not a URL: \<open>new URL\<close> throws.
\<close>

definition bad_url :: "string list \<Rightarrow> env" where
  "bad_url ids = world (\<lambda>p. listing ids) (\<lambda>n. True) (\<lambda>u. Some ''Invalid URL'')"

text \<open>Requests that add product 77 and product 78 while only size 2 is listed.\<close>

definition add_77 :: event where
  "add_77 = PostProductsAdd (lists [''2''] True) 1000 1001 watch_size_1"

definition add_78 :: event where
  "add_78 = PostProductsAdd (lists [''2''] True) 2000 2001 (watch_size_1\<lparr>ab_productId := ''78''\<rparr>)"

text \<open>An environment in which the product request times out.\<close>

definition unreachable :: env where
  "unreachable = world (\<lambda>p. Inl ''Request timeout'') (\<lambda>n. True) (\<lambda>u. None)"




section \<open>The loops of the sweep\<close>

text \<open>
  Every function of the sweep takes the log and returns it extended; the lemmas below
  describe what one call appends.
\<close>

lemma map_set_keys:
  "map fst (map_set k v m) = (if k \<in> set (map fst m) then map fst m else map fst m @ [k])"
  by (induction m) (auto simp del: set_map)

lemma addToCart_log: "addToCart e pid s log = (ok, log1) \<Longrightarrow> log1 = log @ [CartAdd pid s ok]"
  by (auto simp: addToCart_def Let_def)

lemma sendDiscordNotification_log:
  "sendDiscordNotification e wh i s n q u log = Inr log2 \<Longrightarrow>
     log2 = log \<or> log2 = log @ [DiscordNotification i s n q u]"
  by (auto simp: sendDiscordNotification_def split: if_splits option.splits)

lemma watchStep_new:
  assumes "watchStep e wh pid pinfo mapping stockInfo previous s ntf log = (r, ntf1, log1)"
  shows "\<exists>new. log1 = log @ new \<and>
           (new = [] \<or> new = [CartAdd pid s False] \<or> new = [CartAdd pid s True] \<or>
            (\<exists>n q. new = [CartAdd pid s True, DiscordNotification pinfo s n q (productUrl pid)])) \<and>
           (new \<noteq> [] \<longrightarrow> in_stock stockInfo s \<and> \<not> in_stock previous s \<and> s \<notin> set ntf) \<and>
           (CartAdd pid s False \<in> set new \<longrightarrow> ntf1 = ntf) \<and>
           (\<forall>x. x \<noteq> s \<longrightarrow> (x \<in> set ntf1) = (x \<in> set ntf)) \<and>
           (s \<in> set ntf1 \<longrightarrow> in_stock stockInfo s) \<and>
           (in_stock stockInfo s \<longrightarrow> s \<in> set ntf \<longrightarrow> ntf1 = ntf)"
  using assms
  unfolding watchStep_def Let_def addToCart_def sendDiscordNotification_def set_has_def set_add_def set_delete_def
  by (auto split: if_splits option.splits sum.splits prod.splits)

lemma watchLoop_new:
  "watchLoop e wh pid pinfo mapping stockInfo previous sizes ntf log = (r, ntf1, log1) \<Longrightarrow>
   \<exists>new. log1 = log @ new \<and>
     (\<forall>eff\<in>set new. \<exists>s\<in>set sizes. effect_size eff = Some s \<and> in_stock stockInfo s \<and>
         \<not> in_stock previous s) \<and>
     (\<forall>p s ok. CartAdd p s ok \<in> set new \<longrightarrow> p = pid) \<and>
     (\<forall>x. x \<notin> set sizes \<longrightarrow> (x \<in> set ntf1) = (x \<in> set ntf)) \<and>
     (r = None \<longrightarrow> (\<forall>s\<in>set sizes. s \<in> set ntf1 \<longrightarrow> in_stock stockInfo s))"
proof (induction sizes arbitrary: ntf log r ntf1 log1)
  case Nil
  then show ?case by simp
next
  case (Cons x xs)
  obtain r0 ntf0 log0 where st: "watchStep e wh pid pinfo mapping stockInfo previous x ntf log = (r0, ntf0, log0)"
    by (metis prod_cases3)
  from watchStep_new[OF st] obtain new0 where n0: "log0 = log @ new0"
     "new0 = [] \<or> new0 = [CartAdd pid x False] \<or> new0 = [CartAdd pid x True] \<or>
            (\<exists>n q. new0 = [CartAdd pid x True, DiscordNotification pinfo x n q (productUrl pid)])"
     "new0 \<noteq> [] \<longrightarrow> in_stock stockInfo x \<and> \<not> in_stock previous x \<and> x \<notin> set ntf"
     "\<forall>y. y \<noteq> x \<longrightarrow> (y \<in> set ntf0) = (y \<in> set ntf)"
     "x \<in> set ntf0 \<longrightarrow> in_stock stockInfo x"
    by blast
  show ?case
  proof (cases r0)
    case (Some msg)
    with Cons.prems st have "r = Some msg" "ntf1 = ntf0" "log1 = log0" by auto
    with n0 show ?thesis by (intro exI[of _ new0]) auto
  next
    case None
    with Cons.prems st have rest: "watchLoop e wh pid pinfo mapping stockInfo previous xs ntf0 log0 = (r, ntf1, log1)"
      by auto
    from Cons.IH[OF rest] obtain new1 where n1: "log1 = log0 @ new1"
      "\<forall>eff\<in>set new1. \<exists>s\<in>set xs. effect_size eff = Some s \<and> in_stock stockInfo s \<and> \<not> in_stock previous s"
      "\<forall>p s ok. CartAdd p s ok \<in> set new1 \<longrightarrow> p = pid"
      "\<forall>y. y \<notin> set xs \<longrightarrow> (y \<in> set ntf1) = (y \<in> set ntf0)"
      "r = None \<longrightarrow> (\<forall>s\<in>set xs. s \<in> set ntf1 \<longrightarrow> in_stock stockInfo s)"
      by blast
    show ?thesis
    proof (intro exI[of _ "new0 @ new1"] conjI)
      show "log1 = log @ new0 @ new1" using n0 n1 by simp
      show "\<forall>eff\<in>set (new0 @ new1). \<exists>s\<in>set (x # xs). effect_size eff = Some s \<and> in_stock stockInfo s \<and> \<not> in_stock previous s"
        using n0(2,3) n1(2) by auto
      show "\<forall>p s ok. CartAdd p s ok \<in> set (new0 @ new1) \<longrightarrow> p = pid"
        using n0(2) n1(3) by auto
      show "\<forall>y. y \<notin> set (x # xs) \<longrightarrow> (y \<in> set ntf1) = (y \<in> set ntf)"
        using n0(4) n1(4) by auto
      show "r = None \<longrightarrow> (\<forall>s\<in>set (x # xs). s \<in> set ntf1 \<longrightarrow> in_stock stockInfo s)"
        using n0(5) n1(4,5) by (cases "x \<in> set xs") auto
    qed
  qed
qed

lemma watchLoop_failed:
  "distinct sizes \<Longrightarrow>
   watchLoop e wh pid pinfo mapping stockInfo previous sizes ntf log = (r, ntf1, log @ new) \<Longrightarrow>
   CartAdd p s False \<in> set new \<Longrightarrow>
   s \<notin> set ntf1 \<and> (\<forall>i n q u. DiscordNotification i s n q u \<notin> set new)"
proof (induction sizes arbitrary: ntf log r ntf1 new)
  case Nil
  then show ?case by simp
next
  case (Cons x xs)
  obtain r0 ntf0 log0 where st: "watchStep e wh pid pinfo mapping stockInfo previous x ntf log = (r0, ntf0, log0)"
    by (metis prod_cases3)
  from watchStep_new[OF st] obtain new0 where n0: "log0 = log @ new0"
     "new0 = [] \<or> new0 = [CartAdd pid x False] \<or> new0 = [CartAdd pid x True] \<or>
            (\<exists>n q. new0 = [CartAdd pid x True, DiscordNotification pinfo x n q (productUrl pid)])"
     "new0 \<noteq> [] \<longrightarrow> in_stock stockInfo x \<and> \<not> in_stock previous x \<and> x \<notin> set ntf"
     "CartAdd pid x False \<in> set new0 \<longrightarrow> ntf0 = ntf"
     "\<forall>y. y \<noteq> x \<longrightarrow> (y \<in> set ntf0) = (y \<in> set ntf)"
    by blast
  show ?case
  proof (cases r0)
    case (Some msg)
    with Cons.prems st have "ntf1 = ntf0" "log @ new = log0" by auto
    with n0 Cons.prems(3) show ?thesis by auto
  next
    case None
    with Cons.prems st have rest: "watchLoop e wh pid pinfo mapping stockInfo previous xs ntf0 log0 = (r, ntf1, log @ new)"
      by auto
    from watchLoop_new[OF rest] obtain new1 where n1: "log @ new = log0 @ new1"
      "\<forall>eff\<in>set new1. \<exists>s\<in>set xs. effect_size eff = Some s \<and> in_stock stockInfo s \<and> \<not> in_stock previous s"
      "\<forall>y. y \<notin> set xs \<longrightarrow> (y \<in> set ntf1) = (y \<in> set ntf0)"
      by blast
    have new: "new = new0 @ new1" using n0(1) n1(1) by simp
    have rest': "watchLoop e wh pid pinfo mapping stockInfo previous xs ntf0 log0 = (r, ntf1, log0 @ new1)"
      using rest n1(1) by simp
    have dx: "x \<notin> set xs" "distinct xs" using Cons.prems(1) by auto
    show ?thesis
    proof (cases "s = x")
      case True
      have no1: "\<forall>eff\<in>set new1. effect_size eff \<noteq> Some x" using n1(2) dx by auto
      then have "CartAdd p x False \<notin> set new1" by force
      with Cons.prems(3) new True have in0: "CartAdd p x False \<in> set new0" by auto
      with n0(2) have eq0: "new0 = [CartAdd pid x False]" "p = pid" by auto
      with n0(3,4) have "x \<notin> set ntf0" by auto
      with n1(3) dx have "x \<notin> set ntf1" by auto
      moreover have "\<forall>i n q u. DiscordNotification i x n q u \<notin> set new"
        using no1 eq0 new by force
      ultimately show ?thesis using True by simp
    next
      case False
      with n0(2) have "\<forall>eff\<in>set new0. effect_size eff \<noteq> Some s" by auto
      then have a: "CartAdd p s False \<notin> set new0" "\<forall>i n q u. DiscordNotification i s n q u \<notin> set new0"
        by force+
      with Cons.prems(3) new have "CartAdd p s False \<in> set new1" by auto
      from Cons.IH[OF dx(2) rest' this] a new show ?thesis by auto
    qed
  qed
qed

lemma watchLoop_quiet:
  "(\<forall>s\<in>set sizes. in_stock stockInfo s \<longrightarrow> in_stock previous s) \<Longrightarrow>
   (\<forall>s\<in>set sizes. s \<in> set ntf \<longrightarrow> in_stock stockInfo s) \<Longrightarrow>
   watchLoop e wh pid pinfo mapping stockInfo previous sizes ntf log = (None, ntf, log)"
  by (induction sizes) (auto simp: watchStep_def Let_def set_has_def)

lemma restockLoop_new:
  "restockLoop e wh pid pinfo entries added ntf log = (r, ntf1, log1) \<Longrightarrow>
   \<exists>new. log1 = log @ new \<and>
     (added \<longrightarrow> new = [] \<and> ntf1 = ntf \<and> r = None) \<and>
     map effect_size (filter is_cart new) =
       map Some (take (length (filter is_cart new)) (map fst entries)) \<and>
     (\<forall>c\<in>set (butlast (filter is_cart new)). \<not> cart_ok c) \<and>
     length (filter is_discord new) \<le> 1 \<and>
     (\<forall>p s ok. CartAdd p s ok \<in> set new \<longrightarrow> p = pid) \<and>
     (\<forall>i s n q u. DiscordNotification i s n q u \<in> set new \<longrightarrow> CartAdd pid s True \<in> set new) \<and>
     set ntf1 \<subseteq> set ntf \<union> {s. CartAdd pid s True \<in> set new} \<and> set ntf \<subseteq> set ntf1 \<and>
     (r = None \<longrightarrow> (\<forall>s. CartAdd pid s True \<in> set new \<longrightarrow> s \<in> set ntf1))"
proof (induction entries arbitrary: added ntf log r ntf1 log1)
  case Nil
  then show ?case by simp
next
  case (Cons kv rest)
  obtain k v where kv: "kv = (k, v)" by (cases kv)
  show ?case
  proof (cases added)
    case True
    with Cons.prems kv have "restockLoop e wh pid pinfo rest True ntf log = (r, ntf1, log1)" by simp
    from Cons.IH[OF this] True show ?thesis by auto
  next
    case False
    show ?thesis
    proof (cases "cartSucceeds e (cart_calls log)")
      case ok: False
      with Cons.prems kv False
      have "restockLoop e wh pid pinfo rest False ntf (log @ [CartAdd pid k False]) = (r, ntf1, log1)"
        by (simp add: addToCart_def)
      from Cons.IH[OF this] obtain new1 where n1: "log1 = (log @ [CartAdd pid k False]) @ new1"
        "map effect_size (filter is_cart new1) = map Some (take (length (filter is_cart new1)) (map fst rest))"
        "\<forall>c\<in>set (butlast (filter is_cart new1)). \<not> cart_ok c"
        "length (filter is_discord new1) \<le> 1"
        "\<forall>p s ok. CartAdd p s ok \<in> set new1 \<longrightarrow> p = pid"
        "\<forall>i s n q u. DiscordNotification i s n q u \<in> set new1 \<longrightarrow> CartAdd pid s True \<in> set new1"
        "set ntf1 \<subseteq> set ntf \<union> {s. CartAdd pid s True \<in> set new1}" "set ntf \<subseteq> set ntf1"
        "r = None \<longrightarrow> (\<forall>s. CartAdd pid s True \<in> set new1 \<longrightarrow> s \<in> set ntf1)"
        by blast
      show ?thesis
        using n1 False kv by (intro exI[of _ "CartAdd pid k False # new1"]) auto
    next
      case ok: True
      show ?thesis
      proof (cases "sendDiscordNotification e wh pinfo k (si_size v) 1 (productUrl pid) (log @ [CartAdd pid k True])")
        case (Inl msg)
        with Cons.prems kv False ok have "r = Some msg" "ntf1 = ntf" "log1 = log @ [CartAdd pid k True]"
          by (auto simp: addToCart_def)
        then show ?thesis using False kv by (intro exI[of _ "[CartAdd pid k True]"]) auto
      next
        case (Inr log2)
        with Cons.prems kv False ok
        have rec: "restockLoop e wh pid pinfo rest True (set_add k ntf) log2 = (r, ntf1, log1)"
          by (auto simp: addToCart_def)
        from Cons.IH[OF rec] have e1: "log1 = log2" "ntf1 = set_add k ntf" "r = None" by auto
        from sendDiscordNotification_log[OF Inr]
        have "log2 = log @ [CartAdd pid k True] \<or>
              log2 = log @ [CartAdd pid k True, DiscordNotification pinfo k (si_size v) 1 (productUrl pid)]"
          by auto
        then show ?thesis
        proof
          assume "log2 = log @ [CartAdd pid k True]"
          with e1 False kv show ?thesis
            by (intro exI[of _ "[CartAdd pid k True]"]) (auto simp: set_add_def)
        next
          assume "log2 = log @ [CartAdd pid k True, DiscordNotification pinfo k (si_size v) 1 (productUrl pid)]"
          with e1 False kv show ?thesis
            by (intro exI[of _ "[CartAdd pid k True, DiscordNotification pinfo k (si_size v) 1 (productUrl pid)]"])
               (auto simp: set_add_def)
        qed
      qed
    qed
  qed
qed


lemma watchAllBranch_plain:
  "\<not> watchAll product \<Longrightarrow> watchAllBranch e wh product pinfo mapping log = (None, product, log)"
  by (simp add: watchAllBranch_def)

lemma watchAllBranch_frame:
  "watchAllBranch e wh product pinfo mapping log = (r, p1, log1) \<Longrightarrow>
   productId p1 = productId product \<and> watchedSizes p1 = watchedSizes product \<and>
   previousStock p1 = previousStock product \<and> watchAll p1 = watchAll product \<and>
   productInfo p1 = productInfo product \<and> sizeMapping p1 = sizeMapping product"
  by (auto simp: watchAllBranch_def Let_def split: if_splits prod.splits option.splits)

lemma tryProduct_cases:
  assumes "tryProduct e wh product log = (r, p1, log1)"
  obtains (fetch_failed) msg where "fetchProduct e (productId product) = Inl msg"
      "r = Some msg" "p1 = product" "log1 = log"
  | (branch_threw) data msg where "fetchProduct e (productId product) = Inr data"
      "watchAllBranch e wh product (up_info data) (fst (parseSizes (up_options data))) log = (Some msg, p1, log1)"
      "r = Some msg"
  | (loop_threw) data p0 log0 msg ntf where "fetchProduct e (productId product) = Inr data"
      "watchAllBranch e wh product (up_info data) (fst (parseSizes (up_options data))) log = (None, p0, log0)"
      "watchLoop e wh (productId p0) (up_info data) (fst (parseSizes (up_options data)))
         (snd (parseSizes (up_options data))) (previousStock p0) (watchedSizes p0) (notified p0) log0
         = (Some msg, ntf, log1)"
      "r = Some msg" "p1 = p0\<lparr>notified := ntf\<rparr>"
  | (completed) data p0 log0 ntf where "fetchProduct e (productId product) = Inr data"
      "watchAllBranch e wh product (up_info data) (fst (parseSizes (up_options data))) log = (None, p0, log0)"
      "watchLoop e wh (productId p0) (up_info data) (fst (parseSizes (up_options data)))
         (snd (parseSizes (up_options data))) (previousStock p0) (watchedSizes p0) (notified p0) log0
         = (None, ntf, log1)"
      "r = None"
      "p1 = p0\<lparr>notified := ntf, previousStock := snd (parseSizes (up_options data)),
                productInfo := up_info data, sizeMapping := fst (parseSizes (up_options data))\<rparr>"
proof (cases "fetchProduct e (productId product)")
  case (Inl msg)
  with assms have "r = Some msg" "p1 = product" "log1 = log"
    by (simp_all add: tryProduct_def fetchProductDetails_def)
  with Inl show ?thesis by (rule fetch_failed)
next
  case (Inr data)
  let ?m = "fst (parseSizes (up_options data))" and ?k = "snd (parseSizes (up_options data))"
  obtain r0 p0 log0 where wb:
    "watchAllBranch e wh product (up_info data) ?m log = (r0, p0, log0)"
    by (metis prod_cases3)
  have mp: "monitorProduct e wh product (up_info data, ?m, ?k) log = (r, p1, log1)"
    using assms Inr by (simp add: tryProduct_def fetchProductDetails_def)
  show ?thesis
  proof (cases r0)
    case (Some msg)
    with mp wb have "r = Some msg" "p1 = p0" "log1 = log0"
      by (simp_all add: monitorProduct_def case_prod_beta)
    with Inr wb Some show ?thesis by (intro branch_threw[of data msg]) simp_all
  next
    case None
    obtain r1 ntf log2 where wl:
      "watchLoop e wh (productId p0) (up_info data) ?m ?k (previousStock p0) (watchedSizes p0)
         (notified p0) log0 = (r1, ntf, log2)"
      by (metis prod_cases3)
    show ?thesis
    proof (cases r1)
      case (Some msg)
      with mp wb None wl have "r = Some msg" "p1 = p0\<lparr>notified := ntf\<rparr>" "log1 = log2"
        by (simp_all add: monitorProduct_def case_prod_beta)
      with Inr wb None wl Some show ?thesis by (intro loop_threw[of data p0 log0 msg ntf]) simp_all
    next
      case n1: None
      with mp wb None wl have "r = None" "log1 = log2"
        "p1 = p0\<lparr>notified := ntf, previousStock := ?k, productInfo := up_info data,
                  sizeMapping := ?m\<rparr>"
        by (simp_all add: monitorProduct_def case_prod_beta)
      with Inr wb None wl n1 show ?thesis by (intro completed[of data p0 log0 ntf]) simp_all
    qed
  qed
qed

lemma watchAllBranch_extends:
  assumes "watchAllBranch e wh product pinfo mapping log = (r, p1, log1)"
  shows "\<exists>new. log1 = log @ new"
proof -
  obtain r0 ntf l where rl:
    "restockLoop e wh (productId product) pinfo (Object_entries mapping) False
       (notified product) log = (r0, ntf, l)" by (metis prod_cases3)
  from restockLoop_new[OF rl] obtain new where "l = log @ new" by blast
  with assms rl show ?thesis
    by (cases r0) (auto simp: watchAllBranch_def Let_def split: if_splits)
qed

lemma tryProduct_extends:
  assumes "tryProduct e wh product log = (r, p1, log1)"
  shows "\<exists>new. log1 = log @ new"
  using assms
proof (cases rule: tryProduct_cases)
  case (fetch_failed msg)
  then show ?thesis by simp
next
  case (branch_threw data msg)
  from watchAllBranch_extends[OF branch_threw(2)] show ?thesis .
next
  case (loop_threw data p0 log0 msg ntf)
  from watchAllBranch_extends[OF loop_threw(2)] watchLoop_new[OF loop_threw(3)]
  show ?thesis by auto
next
  case (completed data p0 log0 ntf)
  from watchAllBranch_extends[OF completed(2)] watchLoop_new[OF completed(3)]
  show ?thesis by auto
qed

section \<open>Per-size monitoring\<close>

text \<open>
  Claim C1, as the code has it. For a product that is not in \<open>watchAll\<close> mode and
  any watched size \<open>s\<close>: if the sweep attempted the reservation of \<open>s\<close> (its
  stock-appeared edge fired) and the cart refused, then the sweep sent no notification
  for \<open>s\<close> and \<open>s\<close> is not in \<open>notified\<close> afterwards. When the sweep stored the
  snapshot (no error was caught for the product), \<open>previousStock\<close> records \<open>s\<close> as
  in stock, and therefore the next sweep, whatever it observes, makes no cart call
  for \<open>s\<close>: the reservation is not attempted again while the size stays in stock.
  (By \<open>tryProduct_extends\<close> the log that \<open>tryProduct\<close> returns is always the
  log it was given with the new effects appended, so writing its result as
  \<open>log @ new\<close> loses nothing.)
\<close>

theorem failed_reservation_not_notified_not_retried:
  assumes "\<not> watchAll product" and "distinct (watchedSizes product)"
    and "tryProduct e webhook product log = (r, p1, log @ new)"
    and "CartAdd pid s False \<in> set new"
  shows "(\<forall>i n q u. DiscordNotification i s n q u \<notin> set new) \<and> s \<notin> set (notified p1) \<and>
         (r = None \<longrightarrow> in_stock (previousStock p1) s \<and>
            (\<forall>e2 webhook2 log2 r2 p2 new2 ok.
               tryProduct e2 webhook2 p1 log2 = (r2, p2, log2 @ new2) \<longrightarrow>
               CartAdd pid s ok \<notin> set new2))"
  using assms(3)
proof (cases rule: tryProduct_cases)
  case (fetch_failed msg)
  with assms(4) show ?thesis by simp
next
  case (branch_threw data msg)
  with assms(1,4) show ?thesis by (simp add: watchAllBranch_plain)
next
  case (loop_threw data p0 log0 msg ntf)
  with assms(1) have p0: "p0 = product" "log0 = log" by (simp_all add: watchAllBranch_plain)
  from watchLoop_failed[OF assms(2) loop_threw(3)[unfolded p0] assms(4)] loop_threw(4,5)
  show ?thesis by simp
next
  case (completed data p0 log0 ntf)
  with assms(1) have p0: "p0 = product" "log0 = log" by (simp_all add: watchAllBranch_plain)
  let ?stk = "snd (parseSizes (up_options data))"
  from watchLoop_failed[OF assms(2) completed(3)[unfolded p0] assms(4)]
  have a: "\<forall>i n q u. DiscordNotification i s n q u \<notin> set new" "s \<notin> set ntf" by simp_all
  from watchLoop_new[OF completed(3)[unfolded p0]] assms(4)
  have now: "in_stock ?stk s" by fastforce
  have p1: "\<not> watchAll p1" "previousStock p1 = ?stk" "notified p1 = ntf"
    using completed(5) p0 assms(1) by simp_all
  have "CartAdd pid s ok \<notin> set new2"
    if run2: "tryProduct e2 webhook2 p1 log2 = (r2, p2, log2 @ new2)" for e2 webhook2 log2 r2 p2 new2 ok
    using run2
  proof (cases rule: tryProduct_cases)
    case (fetch_failed msg)
    then show ?thesis by simp
  next
    case (branch_threw data2 msg)
    with p1(1) show ?thesis by (simp add: watchAllBranch_plain)
  next
    case (loop_threw data2 q0 l0 msg ntf2)
    with p1(1) have q0: "q0 = p1" "l0 = log2" by (simp_all add: watchAllBranch_plain)
    from watchLoop_new[OF loop_threw(3)[unfolded q0]] p1(2) now show ?thesis by fastforce
  next
    case (completed data2 q0 l0 ntf2)
    with p1(1) have q0: "q0 = p1" "l0 = log2" by (simp_all add: watchAllBranch_plain)
    from watchLoop_new[OF completed(3)[unfolded q0]] p1(2) now show ?thesis by fastforce
  qed
  with a now p1 show ?thesis by simp
qed

theorem failed_reservation_witness:
  "\<not> watchAll watching_1 \<and> distinct (watchedSizes watching_1) \<and>
   tryProduct (lists [''1'', ''2''] False) hook watching_1 [] =
     (None, watching_1_seen, [] @ [CartAdd ''77'' ''1'' False]) \<and>
   ''1'' \<notin> set (notified watching_1_seen) \<and>
   in_stock (previousStock watching_1_seen) ''1'' \<and>
   CartAdd ''77'' ''1'' True \<notin>
     set (snd (snd (tryProduct (lists [''1'', ''2''] True) hook watching_1_seen [])))"
proof -
  have a: "\<not> watchAll watching_1" by code_simp
  have b: "distinct (watchedSizes watching_1)" by code_simp
  have c: "tryProduct (lists [''1'', ''2''] False) hook watching_1 [] =
     (None, watching_1_seen, [] @ [CartAdd ''77'' ''1'' False])" by code_simp
  have d: "CartAdd ''77'' ''1'' False \<in> set [CartAdd ''77'' ''1'' False]" by simp
  note t = failed_reservation_not_notified_not_retried[OF a b c d]
  have e: "tryProduct (lists [''1'', ''2''] True) hook watching_1_seen [] =
     (fst (tryProduct (lists [''1'', ''2''] True) hook watching_1_seen []),
      fst (snd (tryProduct (lists [''1'', ''2''] True) hook watching_1_seen [])),
      [] @ snd (snd (tryProduct (lists [''1'', ''2''] True) hook watching_1_seen [])))"
    by simp
  from t e have "CartAdd ''77'' ''1'' True \<notin>
      set (snd (snd (tryProduct (lists [''1'', ''2''] True) hook watching_1_seen [])))"
    by blast
  with t a b c show ?thesis by simp
qed

text \<open>
  The claim's last part fails. Product 77 is added with watched size 1 while only
  size 2 is listed. The first sweep sees sizes 1 and 2 and the cart refuses: one
  failed cart call. The second sweep sees the same listing, size 1 still in stock,
  and makes no cart call at all.
\<close>

theorem retry_counterexample:
  "snd (run start [PostProductsAdd (lists [''2''] True) 1000 1001 watch_size_1,
                   Tick (lists [''1'', ''2''] False)]) = [CartAdd ''77'' ''1'' False] \<and>
   snd (step (fst (run start [PostProductsAdd (lists [''2''] True) 1000 1001 watch_size_1,
                              Tick (lists [''1'', ''2''] False)]))
          (Tick (lists [''1'', ''2''] False))) = []"
  by code_simp

text \<open>
  Claim C4, as the code has it. After a sweep that processed a product to the end, the
  stored snapshot is the one just observed, and every \<^emph>\<open>watched\<close> size that is in
  \<open>notified\<close> is in stock in that snapshot. The re-arm rule runs only inside the loop
  over the watched sizes, so a size of \<open>notified\<close> that is not watched stays there.
\<close>

theorem watched_notified_in_stock:
  assumes "tryProduct e webhook product log = (None, p1, log1)"
    and "fetchProduct e (productId product) = Inr data"
  shows "previousStock p1 = snd (parseSizes (up_options data)) \<and>
         watchedSizes p1 = watchedSizes product \<and>
         (\<forall>s\<in>set (watchedSizes p1). s \<in> set (notified p1) \<longrightarrow> in_stock (previousStock p1) s)"
  using assms(1)
proof (cases rule: tryProduct_cases)
  case (completed data' p0 log0 ntf)
  with assms(2) have d: "data' = data" by simp
  from watchAllBranch_frame[OF completed(2)] have w: "watchedSizes p0 = watchedSizes product" by simp
  from watchLoop_new[OF completed(3)] 
  have "\<forall>s\<in>set (watchedSizes p0). s \<in> set ntf \<longrightarrow> in_stock (snd (parseSizes (up_options data'))) s"
    by blast
  with completed(5) d w show ?thesis by simp
qed simp_all

theorem watched_notified_witness:
  "tryProduct (lists [''1'', ''2''] True) hook watching_1 [] =
     (None, watching_1_notified,
      [CartAdd ''77'' ''1'' True,
       DiscordNotification shoe ''1'' ''EU 1'' 1 (productUrl ''77'')]) \<and>
   ''1'' \<in> set (watchedSizes watching_1_notified) \<and>
   ''1'' \<in> set (notified watching_1_notified) \<and>
   in_stock (previousStock watching_1_notified) ''1''"
proof -
  have a: "tryProduct (lists [''1'', ''2''] True) hook watching_1 [] =
     (None, watching_1_notified,
      [CartAdd ''77'' ''1'' True,
       DiscordNotification shoe ''1'' ''EU 1'' 1 (productUrl ''77'')])" by code_simp
  have b: "fetchProduct (lists [''1'', ''2''] True) (productId watching_1) =
     Inr \<lparr>up_info = shoe, up_options = [(''color'', []), (''size'', map sizeValue [''1'', ''2''])]\<rparr>"
    by (simp add: lists_def world_def listing_def)
  have c: "''1'' \<in> set (watchedSizes watching_1_notified)" by code_simp
  have d: "''1'' \<in> set (notified watching_1_notified)" by code_simp
  from watched_notified_in_stock[OF a b] c d
  have "in_stock (previousStock watching_1_notified) ''1''" by blast
  with a c d show ?thesis by simp
qed

text \<open>
  The claim as stated fails for a size that is notified but not watched. Product 77 is
  added in \<open>watchAll\<close> mode while sizes 1 and 2 are listed; size 1 is reserved and
  enters \<open>notified\<close>. The next sweep sees only size 2: the product still has sizes, so
  nothing is cleared, and size 1 stays in \<open>notified\<close> although the snapshot just
  stored lists size 2 only.
\<close>

theorem stale_notified_counterexample:
  "map_option notified
     (map_get (monitoredProducts (fst (run start
        [PostProductsAdd (lists [''1'', ''2''] True) 1000 1001 watch_any,
         Tick (lists [''2''] True)]))) ''77'') = Some [''1''] \<and>
   map_option previousStock
     (map_get (monitoredProducts (fst (run start
        [PostProductsAdd (lists [''1'', ''2''] True) 1000 1001 watch_any,
         Tick (lists [''2''] True)]))) ''77'') = Some (snd (snapshot [''2''])) \<and>
   \<not> in_stock (snd (snapshot [''2''])) ''1''"
  by code_simp

section \<open>Restock of a product watched for any size\<close>

lemma filter_cart_ok_butlast:
  "(\<forall>c\<in>set (butlast (filter is_cart xs)). \<not> cart_ok c) \<Longrightarrow> length (filter cart_ok xs) \<le> 1"
proof -
  assume a: "\<forall>c\<in>set (butlast (filter is_cart xs)). \<not> cart_ok c"
  have ok: "filter cart_ok xs = filter cart_ok (filter is_cart xs)"
  proof -
    have "\<And>x. cart_ok x \<Longrightarrow> is_cart x" by (case_tac x) auto
    then show ?thesis by (induction xs) auto
  qed
  show ?thesis
  proof (cases "filter is_cart xs = []")
    case True
    with ok show ?thesis by simp
  next
    case False
    then have "filter is_cart xs = butlast (filter is_cart xs) @ [last (filter is_cart xs)]" by simp
    then have "filter cart_ok xs = filter cart_ok (butlast (filter is_cart xs)) @
                 filter cart_ok [last (filter is_cart xs)]"
      using ok by (metis filter_append)
    moreover have "filter cart_ok (butlast (filter is_cart xs)) = []" using a by (simp add: filter_empty_conv)
    ultimately show ?thesis by simp
  qed
qed

lemma watchAllBranch_restock:
  assumes "watchAll product" "\<not> hadSizes product" "Object_keys mapping \<noteq> []"
    and "watchAllBranch e wh product pinfo mapping log = (r, p1, log1)"
  shows "\<exists>ntf. restockLoop e wh (productId product) pinfo (Object_entries mapping) False
            (notified product) log = (r, ntf, log1) \<and>
          p1 = (if r = None then product\<lparr>notified := ntf, hadSizes := True\<rparr>
                else product\<lparr>notified := ntf\<rparr>)"
proof -
  obtain r0 ntf l0 where rl: "restockLoop e wh (productId product) pinfo (Object_entries mapping) False
            (notified product) log = (r0, ntf, l0)" by (metis prod_cases3)
  show ?thesis
  proof (cases r0)
    case None
    with assms rl show ?thesis by (auto simp: watchAllBranch_def)
  next
    case (Some msg)
    with assms rl show ?thesis by (auto simp: watchAllBranch_def)
  qed
qed

text \<open>
  The calls of the restock loop, exactly: the outcome of each call is the answer of
  the cart, a refused call is followed by the call for the next size, and the loop
  makes no further call after one that succeeded. The keys of a size mapping are
  distinct.
\<close>

lemma cart_calls_snoc: "cart_calls (log @ [CartAdd p s ok]) = Suc (cart_calls log)"
  by (simp add: cart_calls_def)

lemma restockLoop_calls:
  "restockLoop e wh pid pinfo entries False ntf log = (r, ntf1, log @ new) \<Longrightarrow>
   map cart_ok (filter is_cart new) =
     map (\<lambda>i. cartSucceeds e (cart_calls log + i)) [0..<length (filter is_cart new)] \<and>
   (filter is_cart new = [] \<or> \<not> cart_ok (last (filter is_cart new)) \<longrightarrow>
      length (filter is_cart new) = length entries) \<and>
   (r \<noteq> None \<longrightarrow> wh \<noteq> [] \<and> urlError e wh \<noteq> None \<and> ntf1 = ntf) \<and>
   ((\<exists>s. CartAdd pid s True \<in> set new) \<and> wh \<noteq> [] \<and> urlError e wh = None \<longrightarrow>
      length (filter is_discord new) = 1) \<and>
   (wh = [] \<or> urlError e wh \<noteq> None \<longrightarrow> filter is_discord new = [])"
proof (induction entries arbitrary: ntf log new r ntf1)
  case Nil
  then show ?case by simp
next
  case (Cons kv rest)
  obtain k v where kv: "kv = (k, v)" by (cases kv)
  show ?case
  proof (cases "cartSucceeds e (cart_calls log)")
    case ok: False
    with Cons.prems kv
    have rec: "restockLoop e wh pid pinfo rest False ntf (log @ [CartAdd pid k False]) = (r, ntf1, log @ new)"
      by (simp add: addToCart_def)
    from restockLoop_new[OF rec] obtain new1 where "log @ new = (log @ [CartAdd pid k False]) @ new1"
      by blast
    then have new: "new = CartAdd pid k False # new1" by simp
    from rec new have rec': "restockLoop e wh pid pinfo rest False ntf (log @ [CartAdd pid k False]) =
        (r, ntf1, (log @ [CartAdd pid k False]) @ new1)" by simp
    note ih = Cons.IH[OF rec', unfolded cart_calls_snoc]
    have a: "map cart_ok (filter is_cart new) =
       map (\<lambda>i. cartSucceeds e (cart_calls log + i)) [0..<length (filter is_cart new)]"
      using ih ok new by (simp add: map_upt_Suc del: upt_Suc)
    have b: "filter is_cart new = [] \<or> \<not> cart_ok (last (filter is_cart new)) \<longrightarrow>
      length (filter is_cart new) = length (kv # rest)"
      using ih new by auto
    have c: "(\<exists>s. CartAdd pid s True \<in> set new) = (\<exists>s. CartAdd pid s True \<in> set new1)"
      using new by auto
    from a b c ih new show ?thesis by simp
  next
    case ok: True
    show ?thesis
    proof (cases "sendDiscordNotification e wh pinfo k (si_size v) 1 (productUrl pid) (log @ [CartAdd pid k True])")
      case (Inl msg)
      then have w: "wh \<noteq> []" "urlError e wh \<noteq> None"
        by (auto simp: sendDiscordNotification_def split: if_splits option.splits)
      from Inl Cons.prems kv ok have "r = Some msg" "ntf1 = ntf" "new = [CartAdd pid k True]"
        by (auto simp: addToCart_def)
      with ok w show ?thesis by simp
    next
      case (Inr log2)
      with Cons.prems kv ok
      have rec: "restockLoop e wh pid pinfo rest True (set_add k ntf) log2 = (r, ntf1, log @ new)"
        by (auto simp: addToCart_def)
      from restockLoop_new[OF rec] have e1: "log @ new = log2" "r = None" by auto
      show ?thesis
      proof (cases "wh = [] \<or> urlError e wh \<noteq> None")
        case True
        with Inr have "log2 = log @ [CartAdd pid k True]"
          by (auto simp: sendDiscordNotification_def split: if_splits option.splits)
        with e1 have "new = [CartAdd pid k True]" by simp
        with e1 ok True show ?thesis by auto
      next
        case False
        with Inr have "log2 = log @ [CartAdd pid k True,
            DiscordNotification pinfo k (si_size v) 1 (productUrl pid)]"
          by (auto simp: sendDiscordNotification_def split: if_splits option.splits)
        with e1 have "new = [CartAdd pid k True,
            DiscordNotification pinfo k (si_size v) 1 (productUrl pid)]" by simp
        with e1 ok False show ?thesis by auto
      qed
    qed
  qed
qed

lemma in_keys: "(a, b) \<in> set m \<Longrightarrow> a \<in> fst ` set m"
  by force

lemma map_set_same_keys: "k \<in> fst ` set m \<Longrightarrow> map fst (map_set k v m) = map fst m"
  using map_set_keys[of k v m] by simp

lemma insert_index_set: "fst ` set (insert_index n k v m) = insert k (fst ` set m)"
proof (induction m)
  case Nil
  then show ?case by simp
next
  case (Cons a m)
  obtain k' v' where a: "a = (k', v')" by (cases a)
  show ?case
  proof (cases "array_index k'")
    case None
    with a show ?thesis by auto
  next
    case (Some i)
    show ?thesis
    proof (cases "i < n")
      case True
      with Some a Cons.IH show ?thesis by auto
    next
      case False
      with Some a show ?thesis by auto
    qed
  qed
qed

lemma insert_index_distinct:
  "k \<notin> fst ` set m \<Longrightarrow> distinct (map fst m) \<Longrightarrow> distinct (map fst (insert_index n k v m))"
proof (induction m)
  case Nil
  then show ?case by simp
next
  case (Cons a m)
  obtain k' v' where a: "a = (k', v')" by (cases a)
  from Cons.prems a have p: "k \<noteq> k'" "k \<notin> fst ` set m" "k' \<notin> fst ` set m" "distinct (map fst m)"
    by auto
  show ?case
  proof (cases "array_index k'")
    case None
    with a Cons.prems show ?thesis by auto
  next
    case (Some i)
    show ?thesis
    proof (cases "i < n")
      case True
      with Some a p Cons.IH[OF p(2,4)] insert_index_set[of n k v m] show ?thesis by simp
    next
      case False
      with Some a Cons.prems show ?thesis by auto
    qed
  qed
qed

lemma obj_put_distinct:
  assumes "distinct (map fst (props obj))"
  shows "distinct (map fst (props (obj_put k v obj)))"
proof (cases "k = ''__proto__''")
  case True
  with assms show ?thesis by (simp add: obj_put_def)
next
  case np: False
  show ?thesis
  proof (cases "map_has (props obj) k")
    case True
    then have "map fst (map_set k v (props obj)) = map fst (props obj)"
      by (simp add: map_has_def map_set_same_keys)
    with assms np True show ?thesis by (simp add: obj_put_def)
  next
    case False
    then have nk: "k \<notin> fst ` set (props obj)" by (simp add: map_has_def)
    show ?thesis
    proof (cases "array_index k")
      case None
      with assms np False nk show ?thesis by (simp add: obj_put_def)
    next
      case (Some n)
      with assms np False insert_index_distinct[OF nk assms, of n v] show ?thesis
        by (simp add: obj_put_def)
    qed
  qed
qed

lemma fold_addSize_distinct:
  "distinct (map fst (props (fst acc))) \<Longrightarrow>
   distinct (map fst (props (fst (fold addSize vs acc))))"
  by (induction vs arbitrary: acc) (simp_all add: addSize_def obj_put_distinct)

lemma parseSizes_distinct: "distinct (Object_keys (fst (parseSizes options)))"
  using fold_addSize_distinct[of "(obj_empty, obj_empty)"]
  by (simp add: parseSizes_def Object_keys_def obj_empty_def split: option.splits)

text \<open>
  The order of \<open>Object.entries\<close> on a size mapping: the integer-like ids first, in
  ascending order, then the others as the upstream listed them; a repeated id keeps
  its first place.
\<close>

lemma enumeration_order_example:
  "Object_keys (fst (snapshot [''M'', ''20'', ''L'', ''10'', ''M''])) = [''10'', ''20'', ''M'', ''L'']"
  by code_simp

text \<open>
  Claim C2, as the code has it. For a product in \<open>watchAll\<close> mode with no watched
  sizes, on a restock edge (\<open>hadSizes\<close> false, at least one size listed), the sweep
  calls the cart for the sizes one after another, in the order in which
  \<open>Object.entries\<close> enumerates the size mapping, until the first call that
  succeeds. In detail: the sizes called are a prefix of the enumeration, which has no
  repetition, so each size is called at most once; at least one call is made; the
  outcome of the \<open>i\<close>-th call is what the cart answers to it; every call but the
  last one failed, so at most one succeeds; and when the last call failed too, every
  listed size has been called. At most one notification is sent; it is for the size
  whose cart call succeeded, and only such a size is added to \<open>notified\<close>. With a
  webhook that parses, a successful call is followed by exactly one notification;
  without a webhook none is sent. When the sweep finishes the product, \<open>hadSizes\<close>
  is set and the reserved size is in \<open>notified\<close>; the sweep does not finish the
  product only when the notification throws, and then \<open>notified\<close> and \<open>hadSizes\<close>
  are as before.
\<close>

theorem restock_reserves_until_first_success:
  assumes "watchAll product" and "\<not> hadSizes product" and "watchedSizes product = []"
    and "fetchProduct e (productId product) = Inr data"
    and "Object_keys (fst (parseSizes (up_options data))) \<noteq> []"
    and "tryProduct e webhook product log = (r, p1, log @ new)"
  shows "map effect_size (filter is_cart new) =
           map Some (take (length (filter is_cart new))
                      (Object_keys (fst (parseSizes (up_options data))))) \<and>
         (\<forall>c\<in>set (butlast (filter is_cart new)). \<not> cart_ok c) \<and>
         length (filter cart_ok new) \<le> 1 \<and>
         length (filter is_discord new) \<le> 1 \<and>
         (\<forall>i s n q u. DiscordNotification i s n q u \<in> set new \<longrightarrow>
            CartAdd (productId product) s True \<in> set new) \<and>
         set (notified p1) \<subseteq> set (notified product) \<union> {s. CartAdd (productId product) s True \<in> set new} \<and>
         (r = None \<longrightarrow> hadSizes p1 \<and>
            (\<forall>s. CartAdd (productId product) s True \<in> set new \<longrightarrow> s \<in> set (notified p1))) \<and>
         filter is_cart new \<noteq> [] \<and>
         map cart_ok (filter is_cart new) =
           map (\<lambda>i. cartSucceeds e (cart_calls log + i)) [0..<length (filter is_cart new)] \<and>
         (\<not> cart_ok (last (filter is_cart new)) \<longrightarrow>
            length (filter is_cart new) =
              length (Object_keys (fst (parseSizes (up_options data))))) \<and>
         distinct (Object_keys (fst (parseSizes (up_options data)))) \<and>
         distinct (map effect_size (filter is_cart new)) \<and>
         (\<forall>p s ok. CartAdd p s ok \<in> set new \<longrightarrow> p = productId product) \<and>
         ((\<exists>s. CartAdd (productId product) s True \<in> set new) \<and> webhook \<noteq> [] \<and>
            urlError e webhook = None \<longrightarrow> length (filter is_discord new) = 1) \<and>
         (webhook = [] \<or> urlError e webhook \<noteq> None \<longrightarrow> filter is_discord new = []) \<and>
         (r \<noteq> None \<longrightarrow> webhook \<noteq> [] \<and> urlError e webhook \<noteq> None \<and>
            notified p1 = notified product \<and> \<not> hadSizes p1)"
proof -
  let ?m = "fst (parseSizes (up_options data))"
  have main: "\<exists>ntf. restockLoop e webhook (productId product) (up_info data) (Object_entries ?m) False
            (notified product) log = (r, ntf, log @ new) \<and> notified p1 = ntf \<and>
            (r = None \<longrightarrow> hadSizes p1) \<and> (r \<noteq> None \<longrightarrow> \<not> hadSizes p1)"
    using assms(6)
  proof (cases rule: tryProduct_cases)
    case (fetch_failed msg)
    with assms(4) show ?thesis by simp
  next
    case (branch_threw data' msg)
    with assms(4) have d: "data' = data" by simp
    from watchAllBranch_restock[OF assms(1,2,5) branch_threw(2)[unfolded d]] branch_threw(3) assms(2)
    show ?thesis by auto
  next
    case (loop_threw data' p0 log0 msg ntf)
    with assms(4) have d: "data' = data" by simp
    from watchAllBranch_frame[OF loop_threw(2)] assms(3) have "watchedSizes p0 = []" by simp
    with loop_threw(3) show ?thesis by simp
  next
    case (completed data' p0 log0 ntf)
    with assms(4) have d: "data' = data" by simp
    from watchAllBranch_frame[OF completed(2)] assms(3) have "watchedSizes p0 = []" by simp
    with completed(3) have e: "ntf = notified p0" "log0 = log @ new" by simp_all
    from watchAllBranch_restock[OF assms(1,2,5) completed(2)[unfolded d]] e completed(4,5)
    show ?thesis by auto
  qed
  then obtain ntf where rl: "restockLoop e webhook (productId product) (up_info data) (Object_entries ?m) False
            (notified product) log = (r, ntf, log @ new)" and n: "notified p1 = ntf" "r = None \<longrightarrow> hadSizes p1"
            "r \<noteq> None \<longrightarrow> \<not> hadSizes p1"
    by blast
  from restockLoop_new[OF rl] have
    a: "map effect_size (filter is_cart new) =
       map Some (take (length (filter is_cart new)) (map fst (Object_entries ?m)))"
    and b: "\<forall>c\<in>set (butlast (filter is_cart new)). \<not> cart_ok c"
    and c: "length (filter is_discord new) \<le> 1"
    and p: "\<forall>p s ok. CartAdd p s ok \<in> set new \<longrightarrow> p = productId product"
    and d: "\<forall>i s n q u. DiscordNotification i s n q u \<in> set new \<longrightarrow> CartAdd (productId product) s True \<in> set new"
    and f: "set ntf \<subseteq> set (notified product) \<union> {s. CartAdd (productId product) s True \<in> set new}"
    and g: "r = None \<longrightarrow> (\<forall>s. CartAdd (productId product) s True \<in> set new \<longrightarrow> s \<in> set ntf)"
    by auto
  from a have a': "map effect_size (filter is_cart new) =
           map Some (take (length (filter is_cart new)) (Object_keys ?m))"
    by (simp add: Object_keys_def Object_entries_def)
  have len: "length (Object_entries ?m) = length (Object_keys ?m)"
    by (simp add: Object_keys_def Object_entries_def)
  from restockLoop_calls[OF rl] len have
    o: "map cart_ok (filter is_cart new) =
         map (\<lambda>i. cartSucceeds e (cart_calls log + i)) [0..<length (filter is_cart new)]"
    and l: "filter is_cart new = [] \<or> \<not> cart_ok (last (filter is_cart new)) \<longrightarrow>
         length (filter is_cart new) = length (Object_keys ?m)"
    and t: "r \<noteq> None \<longrightarrow> webhook \<noteq> [] \<and> urlError e webhook \<noteq> None \<and> ntf = notified product"
    and s1: "(\<exists>s. CartAdd (productId product) s True \<in> set new) \<and> webhook \<noteq> [] \<and>
         urlError e webhook = None \<longrightarrow> length (filter is_discord new) = 1"
    and s0: "webhook = [] \<or> urlError e webhook \<noteq> None \<longrightarrow> filter is_discord new = []"
    by simp_all
  have ne: "filter is_cart new \<noteq> []" using l assms(5) by auto
  have dk: "distinct (Object_keys ?m)" by (rule parseSizes_distinct)
  have "distinct (map Some (take (length (filter is_cart new)) (Object_keys ?m)))"
    using dk by (simp add: distinct_map)
  with a' have dc: "distinct (map effect_size (filter is_cart new))" by simp
  from a' b filter_cart_ok_butlast[OF b] c d f g n(1,2) have old:
    "map effect_size (filter is_cart new) =
           map Some (take (length (filter is_cart new)) (Object_keys ?m)) \<and>
         (\<forall>c\<in>set (butlast (filter is_cart new)). \<not> cart_ok c) \<and>
         length (filter cart_ok new) \<le> 1 \<and>
         length (filter is_discord new) \<le> 1 \<and>
         (\<forall>i s n q u. DiscordNotification i s n q u \<in> set new \<longrightarrow>
            CartAdd (productId product) s True \<in> set new) \<and>
         set (notified p1) \<subseteq> set (notified product) \<union> {s. CartAdd (productId product) s True \<in> set new} \<and>
         (r = None \<longrightarrow> hadSizes p1 \<and>
            (\<forall>s. CartAdd (productId product) s True \<in> set new \<longrightarrow> s \<in> set (notified p1)))"
    by simp
  have new: "filter is_cart new \<noteq> [] \<and>
         map cart_ok (filter is_cart new) =
           map (\<lambda>i. cartSucceeds e (cart_calls log + i)) [0..<length (filter is_cart new)] \<and>
         (\<not> cart_ok (last (filter is_cart new)) \<longrightarrow>
            length (filter is_cart new) = length (Object_keys ?m)) \<and>
         distinct (Object_keys ?m) \<and>
         distinct (map effect_size (filter is_cart new)) \<and>
         (\<forall>p s ok. CartAdd p s ok \<in> set new \<longrightarrow> p = productId product) \<and>
         ((\<exists>s. CartAdd (productId product) s True \<in> set new) \<and> webhook \<noteq> [] \<and>
            urlError e webhook = None \<longrightarrow> length (filter is_discord new) = 1) \<and>
         (webhook = [] \<or> urlError e webhook \<noteq> None \<longrightarrow> filter is_discord new = []) \<and>
         (r \<noteq> None \<longrightarrow> webhook \<noteq> [] \<and> urlError e webhook \<noteq> None \<and>
            notified p1 = notified product \<and> \<not> hadSizes p1)"
    using ne o l dk dc p s1 s0 t n(1,3) by blast
  from old new show ?thesis by (elim conjE) (intro conjI; assumption)
qed

theorem restock_witness:
  "watchAll waiting_any \<and> \<not> hadSizes waiting_any \<and> watchedSizes waiting_any = [] \<and>
   tryProduct second_call_succeeds hook waiting_any [] =
     (None, waiting_any_restocked,
      [CartAdd ''77'' ''10'' False, CartAdd ''77'' ''20'' True,
       DiscordNotification shoe ''20'' ''EU 20'' 1 (productUrl ''77'')]) \<and>
   length (filter cart_ok
      [CartAdd ''77'' ''10'' False, CartAdd ''77'' ''20'' True,
       DiscordNotification shoe ''20'' ''EU 20'' 1 (productUrl ''77'')]) \<le> 1 \<and>
   distinct (Object_keys (fst (snapshot [''20'', ''10'']))) \<and>
   hadSizes waiting_any_restocked"
proof -
  have a: "watchAll waiting_any" by code_simp
  have b: "\<not> hadSizes waiting_any" by code_simp
  have c: "watchedSizes waiting_any = []" by code_simp
  have d: "fetchProduct second_call_succeeds (productId waiting_any) =
     Inr \<lparr>up_info = shoe,
          up_options = [(''color'', []), (''size'', map sizeValue [''20'', ''10''])]\<rparr>"
    by (simp add: second_call_succeeds_def world_def listing_def)
  have e: "Object_keys (fst (parseSizes (up_options
     \<lparr>up_info = shoe,
      up_options = [(''color'', []), (''size'', map sizeValue [''20'', ''10''])]\<rparr>))) \<noteq> []"
    by code_simp
  have f: "tryProduct second_call_succeeds hook waiting_any [] =
     (None, waiting_any_restocked,
      [] @ [CartAdd ''77'' ''10'' False, CartAdd ''77'' ''20'' True,
       DiscordNotification shoe ''20'' ''EU 20'' 1 (productUrl ''77'')])" by code_simp
  note t = restock_reserves_until_first_success[OF a b c d e f]
  from t have g: "length (filter cart_ok
      [CartAdd ''77'' ''10'' False, CartAdd ''77'' ''20'' True,
       DiscordNotification shoe ''20'' ''EU 20'' 1 (productUrl ''77'')]) \<le> 1"
    by (elim conjE)
  from t have h: "hadSizes waiting_any_restocked" by (elim conjE) simp
  from t have i: "distinct (Object_keys (fst (snapshot [''20'', ''10''])))"
    by (elim conjE) (simp add: snapshot_def)
  from a b c f g h i show ?thesis by simp
qed

text \<open>
  The claim as stated fails when the first cart call is refused. Product 77 is added
  in \<open>watchAll\<close> mode while nothing is listed. Then the upstream lists sizes 20 and
  10, in this order; the first cart call fails and the second succeeds. The sweep
  makes two cart calls, and the first of them is for size 10: integer-like keys of
  the size mapping are enumerated in ascending order, not in upstream order.
\<close>

theorem restock_counterexample:
  "snd (run start [PostProductsAdd (lists [] True) 1000 1001 watch_any,
                   Tick second_call_succeeds]) =
     [CartAdd ''77'' ''10'' False, CartAdd ''77'' ''20'' True,
      DiscordNotification shoe ''20'' ''EU 20'' 1 (productUrl ''77'')]"
  by code_simp

section \<open>Two sweeps over the same availability\<close>

text \<open>
  When no notification can throw (no webhook, or one that parses) and every product
  of the registry is fetched, a sweep finishes every product; a second sweep that
  gets the same answers then changes nothing, calls nothing and sends nothing.
\<close>

lemma watchAllBranch_settled:
  "watchAllBranch e wh product pinfo mapping log = (None, p1, log1) \<Longrightarrow> watchAll product \<Longrightarrow>
   hadSizes p1 = (Object_keys mapping \<noteq> [])"
  by (auto simp: watchAllBranch_def Let_def split: if_splits prod.splits option.splits)

lemma watchAllBranch_quiet:
  "watchAll product \<longrightarrow> hadSizes product = (Object_keys mapping \<noteq> []) \<Longrightarrow>
   watchAllBranch e wh product pinfo mapping log = (None, product, log)"
  by (auto simp: watchAllBranch_def Let_def)

lemma tryProduct_idempotent:
  assumes "tryProduct e webhook product log = (None, p1, log1)"
    and "fetchProduct e2 (productId product) = fetchProduct e (productId product)"
  shows "tryProduct e2 webhook2 p1 log2 = (None, p1, log2)"
  using assms(1)
proof (cases rule: tryProduct_cases)
  case (completed data p0 log0 ntf)
  let ?m = "fst (parseSizes (up_options data))" and ?k = "snd (parseSizes (up_options data))"
  note fr = watchAllBranch_frame[OF completed(2)]
  have pid: "productId p1 = productId product" using completed(5) fr by simp
  have f2: "fetchProductDetails e2 (productId p1) = Inr (up_info data, ?m, ?k)"
    using assms(2) completed(1) pid by (simp add: fetchProductDetails_def)
  have "watchAll p1 \<longrightarrow> hadSizes p1 = (Object_keys ?m \<noteq> [])"
    using watchAllBranch_settled[OF completed(2)] fr completed(5) by simp
  then have wb: "watchAllBranch e2 webhook2 p1 (up_info data) ?m log2 = (None, p1, log2)"
    by (rule watchAllBranch_quiet)
  from watchLoop_new[OF completed(3)]
  have "\<forall>s\<in>set (watchedSizes p0). s \<in> set ntf \<longrightarrow> in_stock ?k s" by blast
  then have "watchLoop e2 webhook2 (productId p1) (up_info data) ?m ?k ?k (watchedSizes p1) ntf log2
               = (None, ntf, log2)"
    using completed(5) by (intro watchLoop_quiet) simp_all
  then have wl: "watchLoop e2 webhook2 (productId p1) (up_info data) ?m ?k (previousStock p1)
      (watchedSizes p1) (notified p1) log2 = (None, notified p1, log2)"
    using completed(5) by simp
  have "p1\<lparr>notified := notified p1, previousStock := ?k, productInfo := up_info data, sizeMapping := ?m\<rparr> = p1"
    using completed(5) by simp
  with f2 wb wl show ?thesis
    by (simp add: tryProduct_def monitorProduct_def case_prod_beta)
qed simp_all

lemma sendDiscordNotification_no_throw:
  "webhook = [] \<or> urlError e webhook = None \<Longrightarrow>
   \<exists>log2. sendDiscordNotification e webhook i s n q u log = Inr log2"
  by (auto simp: sendDiscordNotification_def)

lemma restockLoop_no_throw:
  "webhook = [] \<or> urlError e webhook = None \<Longrightarrow>
   fst (restockLoop e webhook pid pinfo entries added ntf log) = None"
proof (induction entries arbitrary: added ntf log)
  case Nil
  then show ?case by simp
next
  case (Cons kv rest)
  obtain k v where kv: "kv = (k, v)" by (cases kv)
  from Cons kv show ?case
    by (auto simp: addToCart_def Let_def sendDiscordNotification_def)
qed

lemma watchLoop_no_throw:
  "webhook = [] \<or> urlError e webhook = None \<Longrightarrow>
   fst (watchLoop e webhook pid pinfo mapping stockInfo previous sizes ntf log) = None"
proof (induction sizes arbitrary: ntf log)
  case Nil
  then show ?case by simp
next
  case (Cons s rest)
  then show ?case
    by (auto simp: watchStep_def Let_def addToCart_def sendDiscordNotification_def)
qed

lemma watchAllBranch_no_throw:
  assumes "webhook = [] \<or> urlError e webhook = None"
  shows "fst (watchAllBranch e webhook product pinfo mapping log) = None"
proof -
  obtain r ntf l where rl:
    "restockLoop e webhook (productId product) pinfo (Object_entries mapping) False
       (notified product) log = (r, ntf, l)" by (metis prod_cases3)
  with restockLoop_no_throw[OF assms, of "productId product" pinfo "Object_entries mapping" False
      "notified product" log]
  have "r = None" by simp
  with rl show ?thesis by (simp add: watchAllBranch_def Let_def)
qed

lemma tryProduct_no_throw:
  assumes "webhook = [] \<or> urlError e webhook = None"
    and "fetchProduct e (productId product) = Inr data"
  shows "fst (tryProduct e webhook product log) = None"
proof -
  obtain r p1 log1 where t: "tryProduct e webhook product log = (r, p1, log1)" by (metis prod_cases3)
  from t show ?thesis
  proof (cases rule: tryProduct_cases)
    case (fetch_failed msg)
    with assms(2) show ?thesis by simp
  next
    case (branch_threw data' msg)
    with watchAllBranch_no_throw[OF assms(1), of product "up_info data'"
        "fst (parseSizes (up_options data'))" log]
    show ?thesis by simp
  next
    case (loop_threw data' p0 log0 msg ntf)
    with watchLoop_no_throw[OF assms(1), of "productId p0" "up_info data'" "fst (parseSizes (up_options data'))"
        "snd (parseSizes (up_options data'))" "previousStock p0" "watchedSizes p0" "notified p0" log0]
    show ?thesis by simp
  next
    case (completed data' p0 log0 ntf)
    with t show ?thesis by simp
  qed
qed

lemma monitorLoop_idempotent:
  assumes "webhook = [] \<or> urlError e webhook = None"
    and "\<forall>kv\<in>set ps. \<exists>data. fetchProduct e (productId (snd kv)) = Inr data"
    and "\<forall>kv\<in>set ps. fetchProduct e2 (productId (snd kv)) = fetchProduct e (productId (snd kv))"
    and "monitorLoop e webhook ps flag log = (r, ps1, flag1, log1)"
  shows "r = None \<and> flag1 = flag \<and> monitorLoop e2 webhook2 ps1 flag2 log2 = (None, ps1, flag2, log2)"
  using assms(2,3,4)
proof (induction ps arbitrary: log r ps1 flag1 log1 log2)
  case Nil
  then show ?case by simp
next
  case (Cons kp rest)
  obtain key product where kp: "kp = (key, product)" by (cases kp)
  from Cons.prems(1) kp obtain data where d: "fetchProduct e (productId product) = Inr data" by auto
  obtain r0 p0 log0 where t: "tryProduct e webhook product log = (r0, p0, log0)" by (metis prod_cases3)
  from tryProduct_no_throw[OF assms(1) d, of log] t have r0: "r0 = None" by simp
  obtain r' ps' f' l' where rec: "monitorLoop e webhook rest flag log0 = (r', ps', f', l')"
    by (metis prod_cases4)
  from Cons.prems(3) kp t r0 rec have res: "r = r'" "ps1 = (key, p0) # ps'" "flag1 = f'" "log1 = l'"
    by simp_all
  have f2: "fetchProduct e2 (productId product) = fetchProduct e (productId product)"
    using Cons.prems(2) kp by simp
  from tryProduct_idempotent[OF t[unfolded r0] f2]
  have again: "tryProduct e2 webhook2 p0 log2 = (None, p0, log2)" .
  from Cons.IH[OF _ _ rec, of log2] Cons.prems(1,2)
  have ih: "r' = None" "f' = flag" "monitorLoop e2 webhook2 ps' flag2 log2 = (None, ps', flag2, log2)"
    by simp_all
  with res again show ?case by simp
qed

lemma sweep_idempotent:
  assumes "discordWebhook st = [] \<or> urlError e (discordWebhook st) = None"
    and "\<forall>kv\<in>set (monitoredProducts st). \<exists>data. fetchProduct e (productId (snd kv)) = Inr data"
    and "\<forall>kv\<in>set (monitoredProducts st).
           fetchProduct e2 (productId (snd kv)) = fetchProduct e (productId (snd kv))"
    and "monitorAllProducts e st = (r, st1, log1)"
  shows "monitorAllProducts e2 st1 = (None, st1, [])"
proof (cases "monitoredProducts st = []")
  case True
  with assms(4) show ?thesis by (simp add: monitorAllProducts_def)
next
  case False
  obtain r0 ps1 f1 l1 where ml: "monitorLoop e (discordWebhook st) (monitoredProducts st)
      (tokenExpiredNotified st) [] = (r0, ps1, f1, l1)" by (metis prod_cases4)
  with assms(4) False have st1: "st1 = st\<lparr>monitoredProducts := ps1, tokenExpiredNotified := f1\<rparr>"
    by (simp add: monitorAllProducts_def)
  from monitorLoop_idempotent[OF assms(1,2,3) ml, of "discordWebhook st" f1 "[]"]
  have "monitorLoop e2 (discordWebhook st) ps1 f1 [] = (None, ps1, f1, [])" by blast
  with st1 show ?thesis by (simp add: monitorAllProducts_def)
qed

text \<open>
  Claim C3 says that the second of two consecutive sweeps over identical upstream
  availability makes no reservation call and sends no notification. The code breaks
  this when the notification throws: with a webhook that \<open>new URL\<close> rejects, the
  sweep reserves size 1, the notification throws before \<open>notified\<close> and
  \<open>previousStock\<close> are written, the error is caught, and the next sweep over the
  same listing reserves size 1 again. The two conjuncts are the logs of the first and
  of the second sweep.
\<close>

theorem notification_error_repeats_reservation:
  "snd (run (initial ''not-a-url'' [] [])
         [PostProductsAdd (bad_url [''2'']) 1000 1001 watch_size_1,
          Tick (bad_url [''1'', ''2''])]) = [CartAdd ''77'' ''1'' True] \<and>
   snd (step (fst (run (initial ''not-a-url'' [] [])
                    [PostProductsAdd (bad_url [''2'']) 1000 1001 watch_size_1,
                     Tick (bad_url [''1'', ''2''])]))
          (Tick (bad_url [''1'', ''2'']))) = [CartAdd ''77'' ''1'' True]"
  by code_simp

section \<open>The registry and the polling timer\<close>

lemma monitorLoop_keys:
  "monitorLoop e wh ps flag log = (r, ps1, flag1, log1) \<Longrightarrow> map fst ps1 = map fst ps"
proof (induction ps arbitrary: flag log r ps1 flag1 log1)
  case Nil
  then show ?case by simp
next
  case (Cons kp rest)
  obtain key product where kp: "kp = (key, product)" by (cases kp)
  obtain r0 p0 log0 where t: "tryProduct e wh product log = (r0, p0, log0)" by (metis prod_cases3)
  show ?case
  proof (cases r0)
    case None
    obtain r' ps' f' l' where rec: "monitorLoop e wh rest flag log0 = (r', ps', f', l')"
      by (metis prod_cases4)
    with Cons.prems kp t None have "ps1 = (key, p0) # ps'" by simp
    with Cons.IH[OF rec] kp show ?thesis by simp
  next
    case (Some msg)
    show ?thesis
    proof (cases "authSignal msg")
      case False
      obtain r' ps' f' l' where rec: "monitorLoop e wh rest flag log0 = (r', ps', f', l')"
        by (metis prod_cases4)
      with Cons.prems kp t Some False have "ps1 = (key, p0) # ps'" by simp
      with Cons.IH[OF rec] kp show ?thesis by simp
    next
      case True
      obtain r2 f2 l2 where s: "sendTokenExpiredNotification e wh msg flag log0 = (r2, f2, l2)"
        by (metis prod_cases3)
      show ?thesis
      proof (cases r2)
        case (Some m2)
        with Cons.prems kp t \<open>r0 = Some msg\<close> True s have "ps1 = (key, p0) # rest" by simp
        with kp show ?thesis by simp
      next
        case None
        obtain r' ps' f' l' where rec: "monitorLoop e wh rest f2 l2 = (r', ps', f', l')"
          by (metis prod_cases4)
        with Cons.prems kp t \<open>r0 = Some msg\<close> True s None have "ps1 = (key, p0) # ps'" by simp
        with Cons.IH[OF rec] kp show ?thesis by simp
      qed
    qed
  qed
qed

lemma monitorAllProducts_frame:
  assumes "monitorAllProducts e st = (r, st1, log)"
  shows "map fst (monitoredProducts st1) = map fst (monitoredProducts st) \<and>
         productHistory st1 = productHistory st \<and>
         monitoringInterval st1 = monitoringInterval st \<and>
         discordWebhook st1 = discordWebhook st \<and> basicAuth st1 = basicAuth st \<and>
         cookies st1 = cookies st"
proof (cases "monitoredProducts st = []")
  case True
  with assms show ?thesis by (simp add: monitorAllProducts_def)
next
  case False
  obtain r0 ps1 f1 l1 where ml: "monitorLoop e (discordWebhook st) (monitoredProducts st)
      (tokenExpiredNotified st) [] = (r0, ps1, f1, l1)" by (metis prod_cases4)
  with assms False have "st1 = st\<lparr>monitoredProducts := ps1, tokenExpiredNotified := f1\<rparr>"
    by (simp add: monitorAllProducts_def)
  with monitorLoop_keys[OF ml] show ?thesis by simp
qed

lemma requestFailed_frame:
  "requestFailed e msg st log = (st1, resp, log1) \<Longrightarrow>
   resp = Failure 500 msg \<and> (\<exists>f. st1 = st\<lparr>tokenExpiredNotified := f\<rparr>)"
  by (auto simp: requestFailed_def split: if_splits prod.splits
           intro: exI[of _ "tokenExpiredNotified st"])

lemma post_products_add_cases:
  assumes "post_products_add e now1 now2 body st = (st1, resp, log)"
  obtains (rejected) c m f where "resp = Failure c m" "st1 = st\<lparr>tokenExpiredNotified := f\<rparr>"
  | (added) pinfo mapping stockInfo ntf where
      "ab_productId body \<noteq> []"
      "fetchProductDetails e (ab_productId body) = Inr (pinfo, mapping, stockInfo)"
      "resp = Added (addReply body pinfo mapping ntf)"
      "st1 = startMonitoring
               (addToHistory (ab_productId body) pinfo mapping now1 now2
                  (st\<lparr>monitoredProducts :=
                        map_set (ab_productId body)
                          \<lparr>productId = ab_productId body, productInfo = pinfo,
                           sizeMapping = mapping,
                           watchedSizes = new_Set (sizes_list (ab_watchedSizes body)),
                           watchAll = ab_watchAll body,
                           hadSizes = (Object_keys mapping \<noteq> []),
                           previousStock = stockInfo, notified = ntf\<rparr>
                          (monitoredProducts st)\<rparr>))"
proof -
  let ?pid = "ab_productId body" and ?watched = "sizes_list (ab_watchedSizes body)"
  have same: "st = st\<lparr>tokenExpiredNotified := tokenExpiredNotified st\<rparr>" by simp
  show ?thesis
  proof (cases "?pid = [] \<or> (\<not> ab_watchAll body \<and> ?watched = [])")
    case True
    with assms have "\<exists>c m. resp = Failure c m" "st1 = st"
      by (auto simp: post_products_add_def Let_def split: if_splits)
    with same show ?thesis using rejected by metis
  next
    case valid: False
    show ?thesis
    proof (cases "fetchProductDetails e ?pid")
      case (Inl msg)
      with assms valid have "requestFailed e msg st [] = (st1, resp, log)"
        by (auto simp: post_products_add_def Let_def)
      from requestFailed_frame[OF this] show ?thesis using rejected by blast
    next
      case (Inr fetched)
      obtain pinfo mapping stockInfo where f: "fetched = (pinfo, mapping, stockInfo)"
        by (metis prod_cases3)
      obtain r1 ntf1 log1 where l1:
        "(if ab_watchAll body \<and> Object_keys mapping \<noteq> [] then
            addRestockLoop e (discordWebhook st) ?pid pinfo (Object_entries mapping) [] []
          else (None, [], [])) = (r1, ntf1, log1)" by (metis prod_cases3)
      show ?thesis
      proof (cases r1)
        case (Some msg)
        with assms valid Inr f l1 have "requestFailed e msg st log1 = (st1, resp, log)"
          by (auto simp: post_products_add_def Let_def)
        from requestFailed_frame[OF this] show ?thesis using rejected by blast
      next
        case None
        obtain r2 ntf2 log2 where l2:
          "addWatchLoop e (discordWebhook st) ?pid pinfo mapping stockInfo ?watched ntf1 log1
             = (r2, ntf2, log2)" by (metis prod_cases3)
        show ?thesis
        proof (cases r2)
          case (Some msg)
          with assms valid Inr f l1 None l2 have "requestFailed e msg st log2 = (st1, resp, log)"
            by (auto simp: post_products_add_def Let_def)
          from requestFailed_frame[OF this] show ?thesis using rejected by blast
        next
          case n2: None
          with assms valid Inr f l1 None l2 show ?thesis
            by (intro added[of pinfo mapping stockInfo ntf2])
               (auto simp: post_products_add_def Let_def)
        qed
      qed
    qed
  qed
qed

lemma map_set_not_empty: "map_set k v m \<noteq> []"
  by (cases m) (auto split: if_splits)

lemma post_products_add_scheduler:
  assumes "post_products_add e now1 now2 body st = (st1, resp, log)"
  shows "(\<forall>reply. resp = Added reply \<longrightarrow> monitoringInterval st1 \<and> monitoredProducts st1 \<noteq> []) \<and>
         ((\<forall>reply. resp \<noteq> Added reply) \<longrightarrow>
            monitoredProducts st1 = monitoredProducts st \<and>
            monitoringInterval st1 = monitoringInterval st \<and>
            productHistory st1 = productHistory st)"
  using assms
proof (cases rule: post_products_add_cases)
  case (rejected c m f)
  then show ?thesis by simp
next
  case (added pinfo mapping stockInfo ntf)
  then show ?thesis
    by (simp add: startMonitoring_def addToHistory_def map_set_not_empty)
qed

lemma update_product_empty: "(update_product key f m = []) = (m = [])"
  by (simp add: update_product_def)

lemma step_invariant:
  assumes "(monitoredProducts st = []) = (\<not> monitoringInterval st)"
  shows "(monitoredProducts (fst (step st ev)) = []) = (\<not> monitoringInterval (fst (step st ev)))"
proof (cases ev)
  case (Tick e)
  obtain r st1 log where m: "monitorAllProducts e st = (r, st1, log)" by (metis prod_cases3)
  from monitorAllProducts_frame[OF m] have
    "(monitoredProducts st1 = []) = (monitoredProducts st = [])"
    "monitoringInterval st1 = monitoringInterval st"
    by (metis map_is_Nil_conv, simp)
  with assms Tick m show ?thesis by simp
next
  case (PostProductsFetch e body)
  obtain st1 resp log where p: "post_products_fetch e body st = (st1, resp, log)"
    by (metis prod_cases3)
  have "\<exists>f. st1 = st\<lparr>tokenExpiredNotified := f\<rparr>"
  proof -
    have same: "st = st\<lparr>tokenExpiredNotified := tokenExpiredNotified st\<rparr>" by simp
    from p show ?thesis
      unfolding post_products_fetch_def
      by (auto split: sum.splits option.splits if_splits prod.splits
               dest!: requestFailed_frame intro: exI[of _ "tokenExpiredNotified st"])
  qed
  with assms PostProductsFetch p show ?thesis by auto
next
  case (PostProductsAdd e now1 now2 body)
  obtain st1 resp log where p: "post_products_add e now1 now2 body st = (st1, resp, log)"
    by (metis prod_cases3)
  from post_products_add_scheduler[OF p] assms PostProductsAdd p show ?thesis
    by (cases "\<exists>reply. resp = Added reply") auto
next
  case (DeleteProduct key)
  with assms show ?thesis
    by (auto simp: delete_product_def stopMonitoring_def Let_def map_has_def map_delete_def)
next
  case (PutProductSizes key field)
  with assms show ?thesis
    by (auto simp: put_product_sizes_def update_product_empty)
next
  case (PostProductReset key)
  with assms show ?thesis
    by (auto simp: post_product_reset_def update_product_empty)
next
  case DeleteHistory
  with assms show ?thesis by (simp add: delete_history_def)
next
  case (DeleteHistoryKey key)
  with assms show ?thesis by (simp add: delete_history_key_def)
next
  case (PostConfigAuth body)
  with assms show ?thesis
    by (simp add: post_config_auth_def resetTokenExpiredFlag_def Let_def)
next
  case (PostConfigDiscord webhook)
  with assms show ?thesis by (simp add: post_config_discord_def)
qed

lemma run_invariant:
  "(monitoredProducts st = []) = (\<not> monitoringInterval st) \<Longrightarrow>
   (monitoredProducts (fst (run st evs)) = []) = (\<not> monitoringInterval (fst (run st evs)))"
proof (induction evs arbitrary: st)
  case Nil
  then show ?case by simp
next
  case (Cons ev evs)
  from Cons.IH[OF step_invariant[OF Cons.prems, of ev]] show ?case
    by (simp add: case_prod_beta)
qed

text \<open>
  Claim C5. In every state that a run reaches from start-up, the registry is empty
  exactly when the polling timer is stopped. A request that adds a product leaves the
  timer running and the registry non-empty; removing the only monitored product
  empties the registry and stops the timer; removing a product while another one is
  monitored leaves the timer as it was.
\<close>

theorem registry_empty_iff_scheduler_stopped:
  "((monitoredProducts (fst (run (initial webhook auth cookie) evs)) = []) =
      (\<not> monitoringInterval (fst (run (initial webhook auth cookie) evs)))) \<and>
   (post_products_add e now1 now2 body st = (st1, Added reply, log) \<longrightarrow>
      monitoringInterval st1 \<and> monitoredProducts st1 \<noteq> []) \<and>
   (map_has (monitoredProducts st) key \<and> (\<forall>k\<in>fst ` set (monitoredProducts st). k = key) \<longrightarrow>
      monitoredProducts (fst (delete_product key st)) = [] \<and>
      \<not> monitoringInterval (fst (delete_product key st))) \<and>
   (map_has (monitoredProducts st) key \<and> (\<exists>k\<in>fst ` set (monitoredProducts st). k \<noteq> key) \<longrightarrow>
      monitoredProducts (fst (delete_product key st)) \<noteq> [] \<and>
      monitoringInterval (fst (delete_product key st)) = monitoringInterval st)"
proof (intro conjI impI)
  show "(monitoredProducts (fst (run (initial webhook auth cookie) evs)) = []) =
      (\<not> monitoringInterval (fst (run (initial webhook auth cookie) evs)))"
    by (rule run_invariant) (simp add: initial_def)
next
  assume "post_products_add e now1 now2 body st = (st1, Added reply, log)"
  from post_products_add_scheduler[OF this]
  show "monitoringInterval st1" "monitoredProducts st1 \<noteq> []" by simp_all
next
  assume a: "map_has (monitoredProducts st) key \<and> (\<forall>k\<in>fst ` set (monitoredProducts st). k = key)"
  then have "map_delete key (monitoredProducts st) = []"
    by (auto simp: map_delete_def filter_empty_conv)
  with a show "monitoredProducts (fst (delete_product key st)) = []"
    "\<not> monitoringInterval (fst (delete_product key st))"
    by (simp_all add: delete_product_def stopMonitoring_def Let_def)
next
  assume a: "map_has (monitoredProducts st) key \<and> (\<exists>k\<in>fst ` set (monitoredProducts st). k \<noteq> key)"
  then have "map_delete key (monitoredProducts st) \<noteq> []"
    by (auto simp: map_delete_def filter_empty_conv)
  with a show "monitoredProducts (fst (delete_product key st)) \<noteq> []"
    "monitoringInterval (fst (delete_product key st)) = monitoringInterval st"
    by (simp_all add: delete_product_def stopMonitoring_def Let_def)
qed

theorem registry_scheduler_witness:
  "monitoredProducts (fst (run start [add_77])) \<noteq> [] \<and>
   monitoringInterval (fst (run start [add_77])) \<and>
   map_has (monitoredProducts (fst (run start [add_77]))) ''77'' \<and>
   fst ` set (monitoredProducts (fst (run start [add_77]))) = {''77''} \<and>
   monitoredProducts (fst (delete_product ''77'' (fst (run start [add_77])))) = [] \<and>
   \<not> monitoringInterval (fst (delete_product ''77'' (fst (run start [add_77])))) \<and>
   map_has (monitoredProducts (fst (run start [add_77, add_78]))) ''77'' \<and>
   ''78'' \<in> fst ` set (monitoredProducts (fst (run start [add_77, add_78]))) \<and>
   monitoringInterval (fst (delete_product ''77'' (fst (run start [add_77, add_78]))))"
proof -
  define s1 where "s1 = fst (run start [add_77])"
  define s2 where "s2 = fst (run start [add_77, add_78])"
  have r1: "monitoredProducts s1 = [(''77'', watching_1)]" unfolding s1_def by code_simp
  have k2: "map fst (monitoredProducts s2) = [''77'', ''78'']" unfolding s2_def by code_simp
  have ne: "monitoredProducts s1 \<noteq> []" using r1 by simp
  have h1: "map_has (monitoredProducts s1) ''77''" using r1 by (simp add: map_has_def)
  have o1: "fst ` set (monitoredProducts s1) = {''77''}" using r1 by simp
  have s2k: "fst ` set (monitoredProducts s2) = {''77'', ''78''}"
    using k2 by (metis list.simps(15) empty_set set_map)
  have h2: "map_has (monitoredProducts s2) ''77''" using s2k by (simp add: map_has_def)
  have o2: "''78'' \<in> fst ` set (monitoredProducts s2)" using s2k by simp
  have ne2: "monitoredProducts s2 \<noteq> []" using k2 by auto
  have t1: "(monitoredProducts s1 = []) = (\<not> monitoringInterval s1)"
    using registry_empty_iff_scheduler_stopped[of hook "[]" "[]" "[add_77]"]
    unfolding s1_def start_def by (rule conjunct1)
  have t2: "(monitoredProducts s2 = []) = (\<not> monitoringInterval s2)"
    using registry_empty_iff_scheduler_stopped[of hook "[]" "[]" "[add_77, add_78]"]
    unfolding s2_def start_def by (rule conjunct1)
  have i1: "monitoringInterval s1" using t1 ne by simp
  have i2: "monitoringInterval s2" using t2 ne2 by simp
  have a1: "\<forall>k\<in>fst ` set (monitoredProducts s1). k = ''77''" using o1 by simp
  have d1: "monitoredProducts (fst (delete_product ''77'' s1)) = [] \<and>
    \<not> monitoringInterval (fst (delete_product ''77'' s1))"
    using registry_empty_iff_scheduler_stopped[of hook "[]" "[]" "[]" "lists [] True" 0 0 watch_size_1 s1 start "addReply watch_size_1 shoe obj_empty []" "[]" "''77''"]
      h1 a1 by (elim conjE) simp
  have a2: "\<exists>k\<in>fst ` set (monitoredProducts s2). k \<noteq> ''77''" using o2 by (intro bexI[of _ "''78''"]) simp_all
  have d2: "monitoringInterval (fst (delete_product ''77'' s2))"
    using registry_empty_iff_scheduler_stopped[of hook "[]" "[]" "[]" "lists [] True" 0 0 watch_size_1 s2 start "addReply watch_size_1 shoe obj_empty []" "[]" "''77''"]
      h2 a2 i2 by (elim conjE) simp
  from ne i1 h1 o1 d1 h2 o2 d2 show ?thesis unfolding s1_def s2_def by simp
qed

section \<open>Requests\<close>

text \<open>
  Claim C6. When the product request of \<open>POST /api/products/add\<close> fails, the answer
  is a failure (status 500 with the message of the error, once the body has passed
  validation), and the registry, the polling timer and the history are what they
  were: no product is created or replaced and the timer is not started. No cart call
  is made and no stock notification is sent.
\<close>

theorem failed_fetch_leaves_registry:
  assumes "fetchProduct e (ab_productId body) = Inl msg"
    and "post_products_add e now1 now2 body st = (st1, resp, log)"
  shows "(\<exists>code m. resp = Failure code m) \<and>
         (ab_productId body \<noteq> [] \<and> (ab_watchAll body \<or> sizes_list (ab_watchedSizes body) \<noteq> [])
            \<longrightarrow> resp = Failure 500 msg) \<and>
         monitoredProducts st1 = monitoredProducts st \<and>
         monitoringInterval st1 = monitoringInterval st \<and>
         productHistory st1 = productHistory st \<and>
         (\<forall>p s ok. CartAdd p s ok \<notin> set log) \<and> filter is_discord log = []"
proof (cases "ab_productId body = [] \<or> (\<not> ab_watchAll body \<and> sizes_list (ab_watchedSizes body) = [])")
  case True
  with assms(2) show ?thesis
    by (auto simp: post_products_add_def Let_def split: if_splits)
next
  case False
  with assms have rf: "requestFailed e msg st [] = (st1, resp, log)"
    by (auto simp: post_products_add_def Let_def fetchProductDetails_def)
  from requestFailed_frame[OF rf] have a: "resp = Failure 500 msg"
    "monitoredProducts st1 = monitoredProducts st" "monitoringInterval st1 = monitoringInterval st"
    "productHistory st1 = productHistory st" by auto
  from rf have "log = [] \<or> log = [TokenExpiredNotification (take 200 msg)]"
    by (auto simp: requestFailed_def sendTokenExpiredNotification_def
             split: if_splits option.splits)
  with a show ?thesis by auto
qed

theorem failed_fetch_witness:
  "fetchProduct unreachable (ab_productId (watch_size_1\<lparr>ab_productId := ''78''\<rparr>)) = Inl ''Request timeout'' \<and>
   post_products_add unreachable 3000 3001 (watch_size_1\<lparr>ab_productId := ''78''\<rparr>)
       (fst (run start [add_77])) =
     (fst (run start [add_77]), Failure 500 ''Request timeout'', []) \<and>
   monitoredProducts (fst (run start [add_77])) = [(''77'', watching_1)]"
proof -
  have a: "fetchProduct unreachable (ab_productId (watch_size_1\<lparr>ab_productId := ''78''\<rparr>)) = Inl ''Request timeout''"
    by (simp add: unreachable_def world_def)
  have b: "post_products_add unreachable 3000 3001 (watch_size_1\<lparr>ab_productId := ''78''\<rparr>)
       (fst (run start [add_77])) =
     (fst (run start [add_77]), Failure 500 ''Request timeout'', [])" by code_simp
  have c: "monitoredProducts (fst (run start [add_77])) = [(''77'', watching_1)]" by code_simp
  from failed_fetch_leaves_registry[OF a b] a b c show ?thesis by simp
qed

text \<open>
  Claim C9. \<open>PUT /api/products/:key/sizes\<close> keeps the keys of the registry and their
  order; every product keeps all its fields except \<open>watchedSizes\<close> (so \<open>notified\<close>,
  \<open>previousStock\<close>, \<open>hadSizes\<close>, \<open>productInfo\<close> and \<open>sizeMapping\<close> are
  untouched); the products stored under other keys are unchanged; and nothing else
  of the state changes.
\<close>

theorem replace_sizes_changes_only_sizes:
  "map fst (monitoredProducts (fst (put_product_sizes key field st))) =
     map fst (monitoredProducts st) \<and>
   map (\<lambda>kv. (snd kv)\<lparr>watchedSizes := []\<rparr>) (monitoredProducts (fst (put_product_sizes key field st))) =
     map (\<lambda>kv. (snd kv)\<lparr>watchedSizes := []\<rparr>) (monitoredProducts st) \<and>
   filter (\<lambda>kv. fst kv \<noteq> key) (monitoredProducts (fst (put_product_sizes key field st))) =
     filter (\<lambda>kv. fst kv \<noteq> key) (monitoredProducts st) \<and>
   (fst (put_product_sizes key field st))\<lparr>monitoredProducts := []\<rparr> = st\<lparr>monitoredProducts := []\<rparr>"
proof -
  have a: "map fst (update_product key f m) = map fst m" for f :: "entry \<Rightarrow> entry" and m
    by (induction m) (auto simp: update_product_def)
  have b: "map (\<lambda>kv. (snd kv)\<lparr>watchedSizes := []\<rparr>)
             (update_product key (\<lambda>product. product\<lparr>watchedSizes := w\<rparr>) m) =
           map (\<lambda>kv. (snd kv)\<lparr>watchedSizes := []\<rparr>) m" for w m
    by (induction m) (auto simp: update_product_def)
  have c: "filter (\<lambda>kv. fst kv \<noteq> key) (update_product key f m) = filter (\<lambda>kv. fst kv \<noteq> key) m"
    for f :: "entry \<Rightarrow> entry" and m
    by (induction m) (auto simp: update_product_def)
  show ?thesis by (simp add: put_product_sizes_def a b c)
qed

theorem replace_sizes_witness:
  "map fst (monitoredProducts (fst (put_product_sizes ''77'' (SizesArray [''2'', ''3'', ''2''])
       (fst (run start [add_77, add_78]))))) = [''77'', ''78''] \<and>
   map (\<lambda>kv. watchedSizes (snd kv)) (monitoredProducts (fst (put_product_sizes ''77''
       (SizesArray [''2'', ''3'', ''2'']) (fst (run start [add_77, add_78]))))) =
     [[''2'', ''3''], [''1'']] \<and>
   map (\<lambda>kv. (snd kv)\<lparr>watchedSizes := []\<rparr>) (monitoredProducts (fst (put_product_sizes ''77''
       (SizesArray [''2'', ''3'', ''2'']) (fst (run start [add_77, add_78]))))) =
     map (\<lambda>kv. (snd kv)\<lparr>watchedSizes := []\<rparr>) (monitoredProducts (fst (run start [add_77, add_78])))"
proof -
  have a: "map fst (monitoredProducts (fst (run start [add_77, add_78]))) = [''77'', ''78'']"
    by code_simp
  have b: "map (\<lambda>kv. watchedSizes (snd kv)) (monitoredProducts (fst (put_product_sizes ''77''
       (SizesArray [''2'', ''3'', ''2'']) (fst (run start [add_77, add_78]))))) =
     [[''2'', ''3''], [''1'']]" by code_simp
  from replace_sizes_changes_only_sizes[of "''77''" "SizesArray [''2'', ''3'', ''2'']"
      "fst (run start [add_77, add_78])"] a b
  show ?thesis by simp
qed

lemma tryProduct_unwatched:
  assumes "\<not> watchAll product" and "watchedSizes product = []"
  shows "snd (snd (tryProduct e wh product log)) = log"
proof -
  obtain r p1 log1 where t: "tryProduct e wh product log = (r, p1, log1)" by (metis prod_cases3)
  from t have "log1 = log"
  proof (cases rule: tryProduct_cases)
    case (fetch_failed msg)
    then show ?thesis by simp
  next
    case (branch_threw data msg)
    with assms(1) show ?thesis by (simp add: watchAllBranch_plain)
  next
    case (loop_threw data p0 log0 msg ntf)
    with assms show ?thesis by (simp add: watchAllBranch_plain)
  next
    case (completed data p0 log0 ntf)
    with assms have "p0 = product" "log0 = log" by (simp_all add: watchAllBranch_plain)
    with completed(3) assms(2) show ?thesis by simp
  qed
  with t show ?thesis by simp
qed

text \<open>
  Claim C10. For a monitored key, a body of \<open>PUT /api/products/:key/sizes\<close> without
  the field \<open>watchedSizes\<close>, or with \<open>null\<close> for it, is answered with success and
  an empty list, and the product is left with an empty watched-size set (its other
  fields unchanged). From then on a sweep does nothing for the product unless it is
  in \<open>watchAll\<close> mode: no cart call and no notification.
\<close>

theorem missing_sizes_empty_the_watch_set:
  assumes "map_has (monitoredProducts st) key" and "field = SizesMissing \<or> field = SizesNull"
  shows "snd (put_product_sizes key field st) = SizesUpdated [] \<and>
         map_get (monitoredProducts (fst (put_product_sizes key field st))) key =
           map_option (\<lambda>product. product\<lparr>watchedSizes := []\<rparr>) (map_get (monitoredProducts st) key) \<and>
         map_get (monitoredProducts (fst (put_product_sizes key field st))) key \<noteq> None \<and>
         (\<forall>product e webhook log.
            map_get (monitoredProducts (fst (put_product_sizes key field st))) key = Some product \<longrightarrow>
            \<not> watchAll product \<longrightarrow> snd (snd (tryProduct e webhook product log)) = log)"
proof -
  have f: "set_of_field field = []" using assms(2) by (auto simp: set_of_field_def)
  have a: "map_of (update_product key g m) key = map_option g (map_of m key)"
    for g :: "entry \<Rightarrow> entry" and m
    by (induction m) (auto simp: update_product_def)
  have n: "map_of (monitoredProducts st) key \<noteq> None"
    using assms(1) by (simp add: map_has_def map_of_eq_None_iff)
  have g: "map_get (monitoredProducts (fst (put_product_sizes key field st))) key =
           map_option (\<lambda>product. product\<lparr>watchedSizes := []\<rparr>) (map_get (monitoredProducts st) key)"
    using assms(1) f a by (simp add: put_product_sizes_def map_get_def)
  have "snd (snd (tryProduct e webhook product log)) = log"
    if "map_get (monitoredProducts (fst (put_product_sizes key field st))) key = Some product"
      and "\<not> watchAll product" for product e webhook log
  proof -
    from that(1) g have "watchedSizes product = []" by auto
    with that(2) show ?thesis by (rule tryProduct_unwatched)
  qed
  with assms(1) f a n g show ?thesis
    by (simp add: put_product_sizes_def map_get_def)
qed

theorem missing_sizes_witness:
  "map_has (monitoredProducts (fst (run start [add_77]))) ''77'' \<and>
   snd (put_product_sizes ''77'' SizesMissing (fst (run start [add_77]))) = SizesUpdated [] \<and>
   map_get (monitoredProducts (fst (put_product_sizes ''77'' SizesMissing (fst (run start [add_77])))))
     ''77'' = Some (watching_1\<lparr>watchedSizes := []\<rparr>) \<and>
   \<not> watchAll (watching_1\<lparr>watchedSizes := []\<rparr>) \<and>
   snd (snd (tryProduct (lists [''1'', ''2''] True) hook (watching_1\<lparr>watchedSizes := []\<rparr>) [])) = []"
proof -
  have r: "monitoredProducts (fst (run start [add_77])) = [(''77'', watching_1)]" by code_simp
  have a: "map_has (monitoredProducts (fst (run start [add_77]))) ''77''"
    using r by (simp add: map_has_def)
  have b: "map_get (monitoredProducts (fst (run start [add_77]))) ''77'' = Some watching_1"
    using r by (simp add: map_get_def)
  have c: "\<not> watchAll (watching_1\<lparr>watchedSizes := []\<rparr>)" by code_simp
  note t = missing_sizes_empty_the_watch_set[OF a, of SizesMissing]
  from t b have d: "map_get (monitoredProducts (fst (put_product_sizes ''77'' SizesMissing
      (fst (run start [add_77]))))) ''77'' = Some (watching_1\<lparr>watchedSizes := []\<rparr>)" by simp
  from t d c have "snd (snd (tryProduct (lists [''1'', ''2''] True) hook
      (watching_1\<lparr>watchedSizes := []\<rparr>) [])) = []" by blast
  with t a c d show ?thesis by simp
qed

section \<open>History\<close>

lemma map_has_map_set: "map_has (map_set k v m) k' = (k' = k \<or> map_has m k')"
proof -
  have "map_has m' x = (x \<in> set (map fst m'))" for m' :: "(string \<times> 'a) list" and x
    by (simp add: map_has_def)
  then show ?thesis by (simp add: map_set_keys del: set_map) auto
qed

lemma map_get_map_set: "map_get (map_set k v m) k = Some v"
  by (induction m) (auto simp: map_get_def)

lemma step_history:
  "productHistory (fst (step st ev)) =
     (case ev of
        PostProductsAdd e now1 now2 body \<Rightarrow>
          productHistory (fst (post_products_add e now1 now2 body st))
      | DeleteHistory \<Rightarrow> []
      | DeleteHistoryKey key \<Rightarrow>
          (if map_has (productHistory st) key then map_delete key (productHistory st)
           else productHistory st)
      | _ \<Rightarrow> productHistory st)"
proof (cases ev)
  case (Tick e)
  obtain r st1 log where m: "monitorAllProducts e st = (r, st1, log)" by (metis prod_cases3)
  from monitorAllProducts_frame[OF m] Tick m show ?thesis by simp
next
  case (PostProductsFetch e body)
  obtain st1 resp log where p: "post_products_fetch e body st = (st1, resp, log)"
    by (metis prod_cases3)
  from p have "productHistory st1 = productHistory st"
    unfolding post_products_fetch_def
    by (auto split: sum.splits option.splits if_splits prod.splits dest!: requestFailed_frame)
  with PostProductsFetch p show ?thesis by simp
next
  case (PostProductsAdd e now1 now2 body)
  then show ?thesis by (simp add: case_prod_beta)
next
  case (PostConfigAuth body)
  then show ?thesis by (simp add: post_config_auth_def resetTokenExpiredFlag_def Let_def)
qed (simp_all add: delete_product_def stopMonitoring_def Let_def put_product_sizes_def
      post_product_reset_def delete_history_def delete_history_key_def post_config_discord_def)

lemma post_products_add_history:
  assumes "post_products_add e now1 now2 body st = (st1, resp, log)"
  shows "(\<forall>k. map_has (productHistory st) k \<longrightarrow> map_has (productHistory st1) k) \<and>
         (\<forall>reply. resp = Added reply \<longrightarrow>
            map_option (\<lambda>h. (addedAt h, lastMonitored h))
              (map_get (productHistory st1) (ab_productId body)) = Some (now1, now2))"
  using assms
proof (cases rule: post_products_add_cases)
  case (rejected c m f)
  then show ?thesis by simp
next
  case (added pinfo mapping stockInfo ntf)
  then show ?thesis
    by (simp add: startMonitoring_def addToHistory_def map_has_map_set map_get_map_set)
qed

text \<open>
  Claim C8, as the code has it. A sweep leaves the history as it is, and so does the
  removal of a product from the registry; indeed every event other than a request that
  adds a product or one of the two history-clearing requests leaves it unchanged. An
  entry of the history disappears only through a history-clearing request. The time
  stamps of an entry are the clock readings of the request that added the product
  (a later add of the same product writes the entry anew).
\<close>

theorem history_written_by_add_only:
  "productHistory (fst (step st (Tick e))) = productHistory st \<and>
   productHistory (fst (step st (DeleteProduct key))) = productHistory st \<and>
   ((\<forall>e' n1 n2 b. ev \<noteq> PostProductsAdd e' n1 n2 b) \<and> ev \<noteq> DeleteHistory \<and>
      (\<forall>k. ev \<noteq> DeleteHistoryKey k) \<longrightarrow>
      productHistory (fst (step st ev)) = productHistory st) \<and>
   (ev \<noteq> DeleteHistory \<and> (\<forall>k. ev \<noteq> DeleteHistoryKey k) \<longrightarrow>
      (\<forall>k. map_has (productHistory st) k \<longrightarrow> map_has (productHistory (fst (step st ev))) k)) \<and>
   (post_products_add e now1 now2 body st = (st1, Added reply, log) \<longrightarrow>
      map_option (\<lambda>h. (addedAt h, lastMonitored h))
        (map_get (productHistory st1) (ab_productId body)) = Some (now1, now2))"
proof (intro conjI impI)
  show "productHistory (fst (step st (Tick e))) = productHistory st"
    unfolding step_history by simp
  show "productHistory (fst (step st (DeleteProduct key))) = productHistory st"
    unfolding step_history by simp
next
  assume "(\<forall>e' n1 n2 b. ev \<noteq> PostProductsAdd e' n1 n2 b) \<and> ev \<noteq> DeleteHistory \<and>
      (\<forall>k. ev \<noteq> DeleteHistoryKey k)"
  then show "productHistory (fst (step st ev)) = productHistory st"
    unfolding step_history by (cases ev) simp_all
next
  assume a: "ev \<noteq> DeleteHistory \<and> (\<forall>k. ev \<noteq> DeleteHistoryKey k)"
  show "\<forall>k. map_has (productHistory st) k \<longrightarrow> map_has (productHistory (fst (step st ev))) k"
  proof (cases ev)
    case (PostProductsAdd e' n1 n2 b)
    obtain s r l where p: "post_products_add e' n1 n2 b st = (s, r, l)" by (metis prod_cases3)
    from post_products_add_history[OF p] PostProductsAdd p show ?thesis by simp
  qed (use a step_history[of st ev] in simp_all)
next
  assume "post_products_add e now1 now2 body st = (st1, Added reply, log)"
  from post_products_add_history[OF this]
  show "map_option (\<lambda>h. (addedAt h, lastMonitored h))
        (map_get (productHistory st1) (ab_productId body)) = Some (now1, now2)" by simp
qed

theorem history_witness:
  "post_products_add (lists [''2''] True) 1000 1001 watch_size_1 start =
     (fst (run start [add_77]), Added (addReply watch_size_1 shoe (fst (snapshot [''2''])) []), []) \<and>
   map_option (\<lambda>h. (addedAt h, lastMonitored h))
     (map_get (productHistory (fst (run start [add_77]))) ''77'') = Some (1000, 1001) \<and>
   map_has (productHistory (fst (run start [add_77]))) ''77'' \<and>
   productHistory (fst (step (fst (run start [add_77])) (Tick (lists [''1'', ''2''] True)))) =
     productHistory (fst (run start [add_77])) \<and>
   productHistory (fst (step (fst (run start [add_77])) (DeleteProduct ''77''))) =
     productHistory (fst (run start [add_77])) \<and>
   productHistory (fst (step (fst (run start [add_77])) (PostProductReset ''77''))) =
     productHistory (fst (run start [add_77])) \<and>
   map_has (productHistory (fst (step (fst (run start [add_77])) add_78))) ''77''"
proof -
  define s1 where "s1 = fst (run start [add_77])"
  have a: "post_products_add (lists [''2''] True) 1000 1001 watch_size_1 start =
     (s1, Added (addReply watch_size_1 shoe (fst (snapshot [''2''])) []), [])"
    unfolding s1_def by code_simp
  have b: "map_has (productHistory s1) ''77''" unfolding s1_def by code_simp
  have c: "(\<forall>e' n1 n2 b. PostProductReset ''77'' \<noteq> PostProductsAdd e' n1 n2 b) \<and>
      PostProductReset ''77'' \<noteq> DeleteHistory \<and> (\<forall>k. PostProductReset ''77'' \<noteq> DeleteHistoryKey k)"
    by simp
  have c': "add_78 \<noteq> DeleteHistory \<and> (\<forall>k. add_78 \<noteq> DeleteHistoryKey k)"
    by (simp add: add_78_def)
  note t = history_written_by_add_only[of s1 "lists [''1'', ''2''] True" "''77''"
      "PostProductReset ''77''"]
  note v = history_written_by_add_only[of s1 "lists [''1'', ''2''] True" "''77''" add_78]
  note u = history_written_by_add_only[of start "lists [''2''] True" "''77''"
      "DeleteProduct ''77''" 1000 1001 watch_size_1 s1
      "addReply watch_size_1 shoe (fst (snapshot [''2''])) []" "[]"]
  have d: "map_option (\<lambda>h. (addedAt h, lastMonitored h))
     (map_get (productHistory s1) (ab_productId watch_size_1)) = Some (1000, 1001)"
    using u a by blast
  have e: "ab_productId watch_size_1 = ''77''" by (simp add: watch_size_1_def)
  have f: "productHistory (fst (step s1 (Tick (lists [''1'', ''2''] True)))) = productHistory s1"
    using t by (rule conjunct1)
  have g: "productHistory (fst (step s1 (DeleteProduct ''77''))) = productHistory s1"
    using t by blast
  have h: "productHistory (fst (step s1 (PostProductReset ''77''))) = productHistory s1"
    using t c by blast
  have i: "map_has (productHistory (fst (step s1 add_78))) ''77''"
    using v c' b by blast
  from a b d e f g h i show ?thesis unfolding s1_def by simp
qed

text \<open>
  The claim's first part fails: the sweep does not touch the history. Product 77 is
  added at clock readings 1000 and 1001; a sweep then processes it (it reserves size 1
  and notifies), and the history after the sweep is the history before it, with
  \<open>lastMonitored\<close> still 1001.
\<close>

theorem history_timestamp_counterexample:
  "map_option lastMonitored
     (map_get (productHistory (fst (run start [add_77]))) ''77'') = Some 1001 \<and>
   snd (run start [add_77, Tick (lists [''1'', ''2''] True)]) =
     [CartAdd ''77'' ''1'' True,
      DiscordNotification shoe ''1'' ''EU 1'' 1 (productUrl ''77'')] \<and>
   productHistory (fst (run start [add_77, Tick (lists [''1'', ''2''] True)])) =
     productHistory (fst (run start [add_77]))"
  by code_simp

section \<open>The alert for expired credentials\<close>



















end
